theory Spec2Isabelle
  imports Main "HOL-Library.Word"
begin

section \<open>Node inventory of pkg/clusterd/inventory/node.go\<close>

text \<open>
  The read path of the inventory package: \<open>loadNodeConfig\<close> lists the discovered
  nodes, fetches each node's subtree from etcd and decodes it with
  \<open>loadHardwareConfig\<close> and the four category parsers; \<open>GetIpAddress\<close> reads one
  leaf; \<open>parseKeyValuePairString\<close> is a pure string helper.

  Go strings are byte sequences and are modelled as \<open>string\<close> (a list of 8-bit
  characters). A function that mutates \<open>*NodeConfig\<close> takes the record and returns
  it updated, together with the lines it logged and the error it returned
  (\<open>None\<close> for \<open>nil\<close>). The etcd client is a function on an explicit store state.
\<close>

subsection \<open>Errors and log lines\<close>

datatype error =
    ErrSyntax string           \<comment> \<open>\<open>strconv.NumError\<close> with \<open>Err = ErrSyntax\<close>, on the input given\<close>
  | ErrRange string            \<comment> \<open>\<open>strconv.NumError\<close> with \<open>Err = ErrRange\<close>\<close>
  | HardwareInfoMissing        \<comment> \<open>\<open>errors.New("hardware info missing")\<close>\<close>
  | IPAddressNodeIsDir string  \<comment> \<open>\<open>fmt.Errorf("IP address node '%s' is a directory, ...")\<close>\<close>
  | EtcdKeyNotFound string     \<comment> \<open>the store's key-not-found error, for the key given\<close>
  | OtherError string          \<comment> \<open>any other error value, named by its message\<close>

text \<open>
  Modelled from the spec: \<open>util.IsEtcdKeyNotFound\<close> is not in the source file; the
  store capability has "a distinguishable key not found error variant".
\<close>

fun IsEtcdKeyNotFound :: "error \<Rightarrow> bool" where
  "IsEtcdKeyNotFound (EtcdKeyNotFound k) = True"
| "IsEtcdKeyNotFound e = False"

datatype 'a outcome = Returns 'a | Panics
  \<comment> \<open>a Go call returns its results or panics (here: on a nil pointer dereference)\<close>

subsection \<open>The etcd tree\<close>

datatype Node = mkNode (Key: string) (Dir: bool) (Value: string) (Nodes: "Node list")
  \<comment> \<open>\<open>etcd.Node\<close>: the fields the package reads. \<open>Nodes\<close> is a slice of non-nil pointers.\<close>

record Response =
  Node :: "Node option"  \<comment> \<open>\<open>etcd.Response.Node\<close>, a pointer: \<open>None\<close> is \<open>nil\<close>\<close>

record GetOptions =
  Recursive :: bool

record 's KeysAPI =
  Get :: "string \<Rightarrow> GetOptions option \<Rightarrow> 's \<Rightarrow> (error + Response option) \<times> 's"
  \<comment> \<open>\<open>etcdClient.Get(ctx, key, opts)\<close> on a store in state \<open>'s\<close>: the error or the
      response pointer, and the state after the request\<close>

datatype log_line =
    Discovered nat                     \<comment> \<open>"Discovered %d nodes"\<close>
  | FailedNodeIds error                \<comment> \<open>"failed to get the node ids. err=%s"\<close>
  | SkippingNode string                \<comment> \<open>"skipping node %s with no hardware discovered"\<close>
  | FailedHardwareInfo string error    \<comment> \<open>"failed to get hardware info from etcd for node %s, %v"\<close>
  | FailedParseHardware string error   \<comment> \<open>"failed to parse hardware config for node %s, %v"\<close>
  | FailedIPAddress string error       \<comment> \<open>"failed to get IP address for node %s, %+v"\<close>
  | FailedGetNodeID string error       \<comment> \<open>"FAILED TO GET nodeID for %s. %v"\<close>
  | FailedDiskConfig string error      \<comment> \<open>"failed to load disk config for node %s, %v"\<close>
  | FailedProcessorConfig string error \<comment> \<open>"failed to load processor config for node %s, %v"\<close>
  | FailedMemoryConfig string error    \<comment> \<open>"failed to load memory config for node %s, %v"\<close>
  | FailedNetworkConfig string error   \<comment> \<open>"failed to load network config for node %s, %v"\<close>
  | FailedIPAddressConfig string error \<comment> \<open>"failed to load IP address config for node %s, %v"\<close>
  | UnexpectedComponent Node           \<comment> \<open>"unexpected hardware component: %s, skipping..."\<close>
  | FailedGetDisk error                \<comment> \<open>"Failed to get disk. err=%v"\<close>
  | UnknownProcessorKey string         \<comment> \<open>"unknown processor property key %s, skipping"\<close>
  | UnknownMemoryKey string            \<comment> \<open>"unknown memory property key %s, skipping"\<close>
  | UnknownNetworkKey string           \<comment> \<open>"unknown network adapter property key %s, skipping"\<close>

subsection \<open>The inventory model\<close>

type_synonym go_uint = "64 word"
  \<comment> \<open>Go's \<open>uint\<close> on a 64-bit platform; every value stored in one here was parsed with
      \<open>bitSize = 32\<close>, so the conversion \<open>uint(x)\<close> loses nothing on a 32-bit one either\<close>

record 'f ProcessorConfig =
  ID :: go_uint
  PhysicalID :: go_uint
  Siblings :: go_uint
  CoreID :: go_uint
  NumCores :: go_uint
  ProcSpeed :: 'f   \<comment> \<open>field \<open>Speed\<close>, a \<open>float64\<close>\<close>
  Bits :: go_uint

record MemoryConfig =
  TotalSize :: "64 word"

record NetworkConfig =
  Name :: string
  IPv4Address :: string
  IPv6Address :: string
  Speed :: "64 word"

record ('d, 'f) NodeConfig =
  IPAddress :: string
  Disks :: "'d list"
  Processors :: "'f ProcessorConfig list"
  Memory :: MemoryConfig
  NetworkAdapters :: "NetworkConfig list"

text \<open>
  The zero values \<open>ProcessorConfig{}\<close>, \<open>MemoryConfig{}\<close>, \<open>NetworkConfig{}\<close> and
  \<open>NodeConfig{}\<close>. \<open>DiskConfig\<close> is declared in another file of the package: it is the
  type parameter \<open>'d\<close>, whose \<open>0\<close> stands for the struct's zero value. \<open>float64\<close> is
  the type parameter \<open>'f\<close>.
\<close>

definition ProcessorConfig_zero :: "('f::zero) ProcessorConfig" where
  "ProcessorConfig_zero =
     \<lparr>ID = 0, PhysicalID = 0, Siblings = 0, CoreID = 0, NumCores = 0, ProcSpeed = 0, Bits = 0\<rparr>"

definition MemoryConfig_zero :: MemoryConfig where
  "MemoryConfig_zero = \<lparr>TotalSize = 0\<rparr>"

definition NetworkConfig_zero :: NetworkConfig where
  "NetworkConfig_zero = \<lparr>Name = [], IPv4Address = [], IPv6Address = [], Speed = 0\<rparr>"

definition NodeConfig_zero :: "('d, 'f) NodeConfig" where
  "NodeConfig_zero =
     \<lparr>IPAddress = [], Disks = [], Processors = [], Memory = MemoryConfig_zero,
      NetworkAdapters = []\<rparr>"

subsection \<open>Constants\<close>

definition IpAddressKey :: string where "IpAddressKey = ''ipaddress''"
definition DisksKey :: string where "DisksKey = ''disks''"
definition ProcessorsKey :: string where "ProcessorsKey = ''cpu''"
definition NetworkKey :: string where "NetworkKey = ''net''"
definition MemoryKey :: string where "MemoryKey = ''mem''"

text \<open>
  Modelled from the spec: the property-name constants are declared in another file of
  the package; the namespace layout of the spec names the leaves
  \<open>cpu/<ordinal>/{physicalid,siblings,coreid,numcores,speed,bits}\<close>,
  \<open>mem/totalsize\<close> and \<open>net/<adapter>/{ipv4address,ipv6address,speed}\<close>.
\<close>

definition ProcPhysicalIDKey :: string where "ProcPhysicalIDKey = ''physicalid''"
definition ProcSiblingsKey :: string where "ProcSiblingsKey = ''siblings''"
definition ProcCoreIDKey :: string where "ProcCoreIDKey = ''coreid''"
definition ProcNumCoresKey :: string where "ProcNumCoresKey = ''numcores''"
definition ProcSpeedKey :: string where "ProcSpeedKey = ''speed''"
definition ProcBitsKey :: string where "ProcBitsKey = ''bits''"
definition MemoryTotalSizeKey :: string where "MemoryTotalSizeKey = ''totalsize''"
definition NetworkIPv4AddressKey :: string where "NetworkIPv4AddressKey = ''ipv4address''"
definition NetworkIPv6AddressKey :: string where "NetworkIPv6AddressKey = ''ipv6address''"
definition NetworkSpeedKey :: string where "NetworkSpeedKey = ''speed''"

subsection \<open>What the file takes from elsewhere\<close>

text \<open>
  Functions and constants the source calls but does not define, as parameters:
  \<open>DiscoveredNodesKey\<close>, \<open>util.GetLeafKeyPath\<close>, \<open>util.GetDirChildKeys\<close> and
  \<open>GetDiskInfo\<close> belong to other files of the repository; \<open>path.Join\<close> and
  \<open>strconv.ParseFloat\<close> to Go's library. \<open>GetDirChildKeys\<close> returns a set of
  strings; the list is that set in the order \<open>nodes.Iter()\<close> yields it, and its length
  is \<open>nodes.Count()\<close>.
\<close>

record ('s, 'd, 'f) externals =
  DiscoveredNodesKey :: string
  path_Join :: "string list \<Rightarrow> string"
  GetLeafKeyPath :: "string \<Rightarrow> string"
  GetDirChildKeys :: "'s KeysAPI \<Rightarrow> string \<Rightarrow> 's \<Rightarrow> (string list \<times> error option) \<times> 's"
  GetDiskInfo :: "Node \<Rightarrow> error + 'd"
  ParseFloat64 :: "string \<Rightarrow> error + 'f"

subsection \<open>strconv\<close>

text \<open>
  \<open>strconv.ParseUint(s, 10, bitSize)\<close>, as every call of the file has it: base 10,
  \<open>bitSize\<close> 32 or 64. The accumulator is a \<open>uint64\<close>; \<open>cutoff\<close> is the smallest
  number whose tenfold exceeds \<open>maxUint64\<close>.
\<close>

definition cutoff :: "64 word" where
  "cutoff = (- 1) div 10 + 1"

fun ParseUint_loop :: "string \<Rightarrow> 64 word \<Rightarrow> 64 word \<Rightarrow> string \<Rightarrow> error + 64 word" where
  "ParseUint_loop s0 maxVal n [] = Inr n"
| "ParseUint_loop s0 maxVal n (c # cs) =
     (let d = (of_char c :: nat) in
      if 48 \<le> d \<and> d \<le> 57
      then (let v = (word_of_nat (d - 48) :: 64 word) in
            if cutoff \<le> n then Inl (ErrRange s0)
            else (let n' = n * 10; n1 = n' + v in
                  if n1 < n' \<or> maxVal < n1 then Inl (ErrRange s0)
                  else ParseUint_loop s0 maxVal n1 cs))
      else Inl (ErrSyntax s0))"

definition ParseUint :: "string \<Rightarrow> nat \<Rightarrow> error + 64 word" where
  "ParseUint s bitSize =
     (if s = [] then Inl (ErrSyntax s)
      else ParseUint_loop s (push_bit bitSize 1 - 1) 0 s)"

text \<open>
  \<open>strconv.ParseFloat(s, 64)\<close>: the empty string is a syntax error; what a non-empty
  string converts to is floating-point arithmetic and is left to the parameter.
\<close>

definition ParseFloat :: "(string \<Rightarrow> error + 'f) \<Rightarrow> string \<Rightarrow> error + 'f" where
  "ParseFloat conv s = (if s = [] then Inl (ErrSyntax s) else conv s)"

subsection \<open>Keys and the IP address accessor\<close>

definition GetNodeConfigKey :: "('s, 'd, 'f) externals \<Rightarrow> string \<Rightarrow> string" where
  "GetNodeConfigKey ext nodeID = path_Join ext [DiscoveredNodesKey ext, nodeID]"

definition GetIpAddress ::
  "('s, 'd, 'f) externals \<Rightarrow> 's KeysAPI \<Rightarrow> string \<Rightarrow> 's
     \<Rightarrow> log_line list \<times> (error + string) outcome \<times> 's" where
  "GetIpAddress ext etcdClient nodeId s =
     (let key = path_Join ext [GetNodeConfigKey ext nodeId, IpAddressKey] in
      case Get etcdClient key None s of
        (Inl err, s') \<Rightarrow> ([FailedGetNodeID nodeId err], Returns (Inl err), s')
      | (Inr None, s') \<Rightarrow> ([], Panics, s')
      | (Inr (Some val), s') \<Rightarrow>
          (case Node val of
             None \<Rightarrow> ([], Panics, s')
           | Some n \<Rightarrow> ([], Returns (Inr (Value n)), s')))"

subsection \<open>Category parsers\<close>

text \<open>
  Each parser returns the lines it logged, the \<open>NodeConfig\<close> as it has left it, and
  its error. The body of a \<open>for\<close> loop is a function of its own, the loop the
  recursion over the children; a sequence is made with \<open>make\<close> (\<open>replicate\<close>) and
  filled by index.
\<close>

fun loadDisksConfig_loop ::
  "('s, 'd, 'f) externals \<Rightarrow> nat \<Rightarrow> Node list \<Rightarrow> ('d, 'f) NodeConfig
     \<Rightarrow> log_line list \<times> ('d, 'f) NodeConfig \<times> error option" where
  "loadDisksConfig_loop ext i [] nodeConfig = ([], nodeConfig, None)"
| "loadDisksConfig_loop ext i (diskInfo # rest) nodeConfig =
     (case GetDiskInfo ext diskInfo of
        Inl err \<Rightarrow> ([FailedGetDisk err], nodeConfig, Some err)
      | Inr disk \<Rightarrow>
          loadDisksConfig_loop ext (Suc i) rest
            (nodeConfig\<lparr>Disks := (Disks nodeConfig)[i := disk]\<rparr>))"

definition loadDisksConfig ::
  "('s, 'd::zero, 'f) externals \<Rightarrow> ('d, 'f) NodeConfig \<Rightarrow> Node
     \<Rightarrow> log_line list \<times> ('d, 'f) NodeConfig \<times> error option" where
  "loadDisksConfig ext nodeConfig disksRootNode =
     (let numDisks = length (Nodes disksRootNode) in
      loadDisksConfig_loop ext 0 (Nodes disksRootNode)
        (nodeConfig\<lparr>Disks := replicate numDisks 0\<rparr>))"

definition loadProcessorProperty ::
  "('s, 'd, 'f) externals \<Rightarrow> 'f ProcessorConfig \<Rightarrow> Node
     \<Rightarrow> log_line list \<times> (error + 'f ProcessorConfig)" where
  "loadProcessorProperty ext proc procProperty =
     (let procPropertyName = GetLeafKeyPath ext (Key procProperty) in
      if procPropertyName = ProcPhysicalIDKey then
        (case ParseUint (Value procProperty) 32 of
           Inl err \<Rightarrow> ([], Inl err)
         | Inr phsyicalId \<Rightarrow> ([], Inr (proc\<lparr>PhysicalID := phsyicalId\<rparr>)))
      else if procPropertyName = ProcSiblingsKey then
        (case ParseUint (Value procProperty) 32 of
           Inl err \<Rightarrow> ([], Inl err)
         | Inr siblings \<Rightarrow> ([], Inr (proc\<lparr>Siblings := siblings\<rparr>)))
      else if procPropertyName = ProcCoreIDKey then
        (case ParseUint (Value procProperty) 32 of
           Inl err \<Rightarrow> ([], Inl err)
         | Inr coreId \<Rightarrow> ([], Inr (proc\<lparr>CoreID := coreId\<rparr>)))
      else if procPropertyName = ProcNumCoresKey then
        (case ParseUint (Value procProperty) 32 of
           Inl err \<Rightarrow> ([], Inl err)
         | Inr numCores \<Rightarrow> ([], Inr (proc\<lparr>NumCores := numCores\<rparr>)))
      else if procPropertyName = ProcSpeedKey then
        (case ParseFloat (ParseFloat64 ext) (Value procProperty) of
           Inl err \<Rightarrow> ([], Inl err)
         | Inr speed \<Rightarrow> ([], Inr (proc\<lparr>ProcSpeed := speed\<rparr>)))
      else if procPropertyName = ProcBitsKey then
        (case ParseUint (Value procProperty) 32 of
           Inl err \<Rightarrow> ([], Inl err)
         | Inr numBits \<Rightarrow> ([], Inr (proc\<lparr>Bits := numBits\<rparr>)))
      else ([UnknownProcessorKey procPropertyName], Inr proc))"

fun procProperties ::
  "('s, 'd, 'f) externals \<Rightarrow> 'f ProcessorConfig \<Rightarrow> Node list
     \<Rightarrow> log_line list \<times> (error + 'f ProcessorConfig)" where
  "procProperties ext proc [] = ([], Inr proc)"
| "procProperties ext proc (p # ps) =
     (case loadProcessorProperty ext proc p of
        (l, Inl err) \<Rightarrow> (l, Inl err)
      | (l, Inr proc') \<Rightarrow>
          (case procProperties ext proc' ps of (l', r) \<Rightarrow> (l @ l', r)))"

definition loadProcessor ::
  "('s, 'd, 'f::zero) externals \<Rightarrow> Node \<Rightarrow> log_line list \<times> (error + 'f ProcessorConfig)" where
  "loadProcessor ext procInfo =
     (case ParseUint (GetLeafKeyPath ext (Key procInfo)) 32 of
        Inl err \<Rightarrow> ([], Inl err)
      | Inr procID \<Rightarrow> procProperties ext (ProcessorConfig_zero\<lparr>ID := procID\<rparr>) (Nodes procInfo))"

fun loadProcessorsConfig_loop ::
  "('s, 'd, 'f::zero) externals \<Rightarrow> nat \<Rightarrow> Node list \<Rightarrow> ('d, 'f) NodeConfig
     \<Rightarrow> log_line list \<times> ('d, 'f) NodeConfig \<times> error option" where
  "loadProcessorsConfig_loop ext i [] nodeConfig = ([], nodeConfig, None)"
| "loadProcessorsConfig_loop ext i (procInfo # rest) nodeConfig =
     (case loadProcessor ext procInfo of
        (l, Inl err) \<Rightarrow> (l, nodeConfig, Some err)
      | (l, Inr proc) \<Rightarrow>
          (case loadProcessorsConfig_loop ext (Suc i) rest
                  (nodeConfig\<lparr>Processors := (Processors nodeConfig)[i := proc]\<rparr>) of
             (l', r) \<Rightarrow> (l @ l', r)))"

definition loadProcessorsConfig ::
  "('s, 'd, 'f::zero) externals \<Rightarrow> ('d, 'f) NodeConfig \<Rightarrow> Node
     \<Rightarrow> log_line list \<times> ('d, 'f) NodeConfig \<times> error option" where
  "loadProcessorsConfig ext nodeConfig procsRootNode =
     (let numProcs = length (Nodes procsRootNode) in
      loadProcessorsConfig_loop ext 0 (Nodes procsRootNode)
        (nodeConfig\<lparr>Processors := replicate numProcs ProcessorConfig_zero\<rparr>))"

definition loadMemoryProperty ::
  "('s, 'd, 'f) externals \<Rightarrow> MemoryConfig \<Rightarrow> Node \<Rightarrow> log_line list \<times> (error + MemoryConfig)" where
  "loadMemoryProperty ext mem memProperty =
     (let memPropertyName = GetLeafKeyPath ext (Key memProperty) in
      if memPropertyName = MemoryTotalSizeKey then
        (case ParseUint (Value memProperty) 64 of
           Inl err \<Rightarrow> ([], Inl err)
         | Inr size' \<Rightarrow> ([], Inr (mem\<lparr>TotalSize := size'\<rparr>)))
      else ([UnknownMemoryKey memPropertyName], Inr mem))"

fun memProperties ::
  "('s, 'd, 'f) externals \<Rightarrow> MemoryConfig \<Rightarrow> Node list \<Rightarrow> log_line list \<times> (error + MemoryConfig)" where
  "memProperties ext mem [] = ([], Inr mem)"
| "memProperties ext mem (p # ps) =
     (case loadMemoryProperty ext mem p of
        (l, Inl err) \<Rightarrow> (l, Inl err)
      | (l, Inr mem') \<Rightarrow>
          (case memProperties ext mem' ps of (l', r) \<Rightarrow> (l @ l', r)))"

definition loadMemoryConfig ::
  "('s, 'd, 'f) externals \<Rightarrow> ('d, 'f) NodeConfig \<Rightarrow> Node
     \<Rightarrow> log_line list \<times> ('d, 'f) NodeConfig \<times> error option" where
  "loadMemoryConfig ext nodeConfig memoryRootNode =
     (case memProperties ext MemoryConfig_zero (Nodes memoryRootNode) of
        (l, Inl err) \<Rightarrow> (l, nodeConfig, Some err)
      | (l, Inr mem) \<Rightarrow> (l, nodeConfig\<lparr>Memory := mem\<rparr>, None))"

definition loadNetworkProperty ::
  "('s, 'd, 'f) externals \<Rightarrow> NetworkConfig \<Rightarrow> Node \<Rightarrow> log_line list \<times> (error + NetworkConfig)" where
  "loadNetworkProperty ext net netProperty =
     (let netPropertyName = GetLeafKeyPath ext (Key netProperty) in
      if netPropertyName = NetworkIPv4AddressKey then
        ([], Inr (net\<lparr>IPv4Address := Value netProperty\<rparr>))
      else if netPropertyName = NetworkIPv6AddressKey then
        ([], Inr (net\<lparr>IPv6Address := Value netProperty\<rparr>))
      else if netPropertyName = NetworkSpeedKey then
        (if Value netProperty = [] then ([], Inr (net\<lparr>Speed := 0\<rparr>))
         else (case ParseUint (Value netProperty) 64 of
                 Inl err \<Rightarrow> ([], Inl err)
               | Inr speed \<Rightarrow> ([], Inr (net\<lparr>Speed := speed\<rparr>))))
      else ([UnknownNetworkKey netPropertyName], Inr net))"

fun netProperties ::
  "('s, 'd, 'f) externals \<Rightarrow> NetworkConfig \<Rightarrow> Node list \<Rightarrow> log_line list \<times> (error + NetworkConfig)" where
  "netProperties ext net [] = ([], Inr net)"
| "netProperties ext net (p # ps) =
     (case loadNetworkProperty ext net p of
        (l, Inl err) \<Rightarrow> (l, Inl err)
      | (l, Inr net') \<Rightarrow>
          (case netProperties ext net' ps of (l', r) \<Rightarrow> (l @ l', r)))"

definition loadNetworkAdapter ::
  "('s, 'd, 'f) externals \<Rightarrow> Node \<Rightarrow> log_line list \<times> (error + NetworkConfig)" where
  "loadNetworkAdapter ext netInfo =
     netProperties ext (NetworkConfig_zero\<lparr>Name := GetLeafKeyPath ext (Key netInfo)\<rparr>)
       (Nodes netInfo)"

fun loadNetworkConfig_loop ::
  "('s, 'd, 'f) externals \<Rightarrow> nat \<Rightarrow> Node list \<Rightarrow> ('d, 'f) NodeConfig
     \<Rightarrow> log_line list \<times> ('d, 'f) NodeConfig \<times> error option" where
  "loadNetworkConfig_loop ext i [] nodeConfig = ([], nodeConfig, None)"
| "loadNetworkConfig_loop ext i (netInfo # rest) nodeConfig =
     (case loadNetworkAdapter ext netInfo of
        (l, Inl err) \<Rightarrow> (l, nodeConfig, Some err)
      | (l, Inr net) \<Rightarrow>
          (case loadNetworkConfig_loop ext (Suc i) rest
                  (nodeConfig\<lparr>NetworkAdapters := (NetworkAdapters nodeConfig)[i := net]\<rparr>) of
             (l', r) \<Rightarrow> (l @ l', r)))"

definition loadNetworkConfig ::
  "('s, 'd, 'f) externals \<Rightarrow> ('d, 'f) NodeConfig \<Rightarrow> Node
     \<Rightarrow> log_line list \<times> ('d, 'f) NodeConfig \<times> error option" where
  "loadNetworkConfig ext nodeConfig networkRootNode =
     (let numNics = length (Nodes networkRootNode) in
      loadNetworkConfig_loop ext 0 (Nodes networkRootNode)
        (nodeConfig\<lparr>NetworkAdapters := replicate numNics NetworkConfig_zero\<rparr>))"

definition loadIPAddressConfig ::
  "('d, 'f) NodeConfig \<Rightarrow> Node \<Rightarrow> log_line list \<times> ('d, 'f) NodeConfig \<times> error option" where
  "loadIPAddressConfig nodeConfig ipAddressNode =
     (if Dir ipAddressNode
      then ([], nodeConfig, Some (IPAddressNodeIsDir (Key ipAddressNode)))
      else ([], nodeConfig\<lparr>IPAddress := Value ipAddressNode\<rparr>, None))"

subsection \<open>The tree decoder\<close>

text \<open>One pass of the \<open>switch\<close> in \<open>loadHardwareConfig\<close>, on one child of the root.\<close>

definition loadHardwareComponent ::
  "('s, 'd::zero, 'f::zero) externals \<Rightarrow> string \<Rightarrow> ('d, 'f) NodeConfig \<Rightarrow> Node
     \<Rightarrow> log_line list \<times> ('d, 'f) NodeConfig \<times> error option" where
  "loadHardwareComponent ext nodeId nodeConfig nodeConfigRoot =
     (let k = GetLeafKeyPath ext (Key nodeConfigRoot) in
      if k = DisksKey then
        (case loadDisksConfig ext nodeConfig nodeConfigRoot of
           (l, c, Some err) \<Rightarrow> (l @ [FailedDiskConfig nodeId err], c, Some err)
         | (l, c, None) \<Rightarrow> (l, c, None))
      else if k = ProcessorsKey then
        (case loadProcessorsConfig ext nodeConfig nodeConfigRoot of
           (l, c, Some err) \<Rightarrow> (l @ [FailedProcessorConfig nodeId err], c, Some err)
         | (l, c, None) \<Rightarrow> (l, c, None))
      else if k = MemoryKey then
        (case loadMemoryConfig ext nodeConfig nodeConfigRoot of
           (l, c, Some err) \<Rightarrow> (l @ [FailedMemoryConfig nodeId err], c, Some err)
         | (l, c, None) \<Rightarrow> (l, c, None))
      else if k = NetworkKey then
        (case loadNetworkConfig ext nodeConfig nodeConfigRoot of
           (l, c, Some err) \<Rightarrow> (l @ [FailedNetworkConfig nodeId err], c, Some err)
         | (l, c, None) \<Rightarrow> (l, c, None))
      else if k = IpAddressKey then
        (case loadIPAddressConfig nodeConfig nodeConfigRoot of
           (l, c, Some err) \<Rightarrow> (l @ [FailedIPAddressConfig nodeId err], c, Some err)
         | (l, c, None) \<Rightarrow> (l, c, None))
      else ([UnexpectedComponent nodeConfigRoot], nodeConfig, None))"

fun loadHardwareConfig_loop ::
  "('s, 'd::zero, 'f::zero) externals \<Rightarrow> string \<Rightarrow> Node list \<Rightarrow> ('d, 'f) NodeConfig
     \<Rightarrow> log_line list \<times> ('d, 'f) NodeConfig \<times> error option" where
  "loadHardwareConfig_loop ext nodeId [] nodeConfig = ([], nodeConfig, None)"
| "loadHardwareConfig_loop ext nodeId (nodeConfigRoot # rest) nodeConfig =
     (case loadHardwareComponent ext nodeId nodeConfig nodeConfigRoot of
        (l, c, Some err) \<Rightarrow> (l, c, Some err)
      | (l, c, None) \<Rightarrow>
          (case loadHardwareConfig_loop ext nodeId rest c of (l', r) \<Rightarrow> (l @ l', r)))"

definition loadHardwareConfig ::
  "('s, 'd::zero, 'f::zero) externals \<Rightarrow> string \<Rightarrow> ('d, 'f) NodeConfig \<Rightarrow> Response option
     \<Rightarrow> log_line list \<times> ('d, 'f) NodeConfig \<times> error option" where
  "loadHardwareConfig ext nodeId nodeConfig nodeInfo =
     (case nodeInfo of
        None \<Rightarrow> ([], nodeConfig, Some HardwareInfoMissing)
      | Some resp \<Rightarrow>
          (case Node resp of
             None \<Rightarrow> ([], nodeConfig, Some HardwareInfoMissing)
           | Some root \<Rightarrow> loadHardwareConfig_loop ext nodeId (Nodes root) nodeConfig))"

subsection \<open>The bulk loader\<close>

text \<open>
  One pass of the \<open>for\<close> loop of \<open>loadNodeConfig\<close>, on one node id: \<open>Inr\<close> is the
  mapping the loop goes on with (unchanged after \<open>continue\<close>), \<open>Inl\<close> the error of
  \<open>return nil, err\<close>. \<open>storeIpAddress\<close> is the end of the loop body, from the call
  of \<open>GetIpAddress\<close> on; both branches of the fetch that do not leave the body reach it.
\<close>

definition storeIpAddress ::
  "('s, 'd, 'f) externals \<Rightarrow> 's KeysAPI \<Rightarrow> string \<Rightarrow> ('d, 'f) NodeConfig
     \<Rightarrow> (string \<rightharpoonup> ('d, 'f) NodeConfig) \<Rightarrow> 's
     \<Rightarrow> log_line list \<times> (error + (string \<rightharpoonup> ('d, 'f) NodeConfig)) outcome \<times> 's" where
  "storeIpAddress ext etcdClient node nodeConfig nodesConfig s =
     (case GetIpAddress ext etcdClient node s of
        (l, Panics, s') \<Rightarrow> (l, Panics, s')
      | (l, Returns (Inl err), s') \<Rightarrow> (l @ [FailedIPAddress node err], Returns (Inl err), s')
      | (l, Returns (Inr ipAddr), s') \<Rightarrow>
          (l, Returns (Inr (nodesConfig(node \<mapsto> nodeConfig\<lparr>IPAddress := ipAddr\<rparr>))), s'))"

definition loadNode ::
  "('s, 'd::zero, 'f::zero) externals \<Rightarrow> 's KeysAPI \<Rightarrow> string
     \<Rightarrow> (string \<rightharpoonup> ('d, 'f) NodeConfig) \<Rightarrow> 's
     \<Rightarrow> log_line list \<times> (error + (string \<rightharpoonup> ('d, 'f) NodeConfig)) outcome \<times> 's" where
  "loadNode ext etcdClient node nodesConfig s =
     (let nodeConfig = NodeConfig_zero;
          configKey = GetNodeConfigKey ext node
      in case Get etcdClient configKey (Some \<lparr>Recursive = True\<rparr>) s of
           (Inl err, s1) \<Rightarrow>
             if IsEtcdKeyNotFound err
             then ([SkippingNode node], Returns (Inr nodesConfig), s1)
             else (case storeIpAddress ext etcdClient node nodeConfig nodesConfig s1 of
                     (l', r) \<Rightarrow> (FailedHardwareInfo node err # l', r))
         | (Inr nodeInfo, s1) \<Rightarrow>
             (case loadHardwareConfig ext node nodeConfig nodeInfo of
                (l, c, Some err) \<Rightarrow> (l @ [FailedParseHardware node err], Returns (Inl err), s1)
              | (l, c, None) \<Rightarrow>
                  (case storeIpAddress ext etcdClient node c nodesConfig s1 of
                     (l', r) \<Rightarrow> (l @ l', r))))"

fun loadNodeConfig_loop ::
  "('s, 'd::zero, 'f::zero) externals \<Rightarrow> 's KeysAPI \<Rightarrow> string list
     \<Rightarrow> (string \<rightharpoonup> ('d, 'f) NodeConfig) \<Rightarrow> 's
     \<Rightarrow> log_line list \<times> (error + (string \<rightharpoonup> ('d, 'f) NodeConfig)) outcome \<times> 's" where
  "loadNodeConfig_loop ext etcdClient [] nodesConfig s = ([], Returns (Inr nodesConfig), s)"
| "loadNodeConfig_loop ext etcdClient (node # nodes) nodesConfig s =
     (case loadNode ext etcdClient node nodesConfig s of
        (l, Returns (Inr nodesConfig'), s') \<Rightarrow>
          (case loadNodeConfig_loop ext etcdClient nodes nodesConfig' s' of
             (l', r) \<Rightarrow> (l @ l', r))
      | (l, r, s') \<Rightarrow> (l, r, s'))"

definition loadNodeConfig ::
  "('s, 'd::zero, 'f::zero) externals \<Rightarrow> 's KeysAPI \<Rightarrow> 's
     \<Rightarrow> log_line list \<times> (error + (string \<rightharpoonup> ('d, 'f) NodeConfig)) outcome \<times> 's" where
  "loadNodeConfig ext etcdClient s =
     (case GetDirChildKeys ext etcdClient (DiscoveredNodesKey ext) s of
        ((nodes, Some err), s0) \<Rightarrow>
          ([Discovered (length nodes), FailedNodeIds err], Returns (Inl err), s0)
      | ((nodes, None), s0) \<Rightarrow>
          (case loadNodeConfig_loop ext etcdClient nodes Map.empty s0 of
             (l, r) \<Rightarrow> (Discovered (length nodes) # l, r)))"

subsection \<open>Key-value pair strings\<close>

text \<open>
  \<open>strings.Split(s, sep)\<close> for a separator of one byte, as both calls have it: cut at
  the first separator while there is one, and end with what is left.
  \<open>strings.Replace(s, old, new, -1)\<close> for an \<open>old\<close> of one byte replaces every
  occurrence.
\<close>

function Split :: "string \<Rightarrow> char \<Rightarrow> string list" where
  "Split s sep =
     (case dropWhile (\<lambda>c. c \<noteq> sep) s of
        [] \<Rightarrow> [s]
      | _ # rest \<Rightarrow> takeWhile (\<lambda>c. c \<noteq> sep) s # Split rest sep)"
  by pat_completeness auto
termination
proof (relation "measure (\<lambda>(s, sep). length s)")
  show "wf (measure (\<lambda>(s, sep). length s))" by simp
next
  fix s :: string and sep x rest
  assume "dropWhile (\<lambda>c. c \<noteq> sep) s = x # rest"
  then have "length rest < length (dropWhile (\<lambda>c. c \<noteq> sep) s)" by simp
  also have "\<dots> \<le> length s" by (rule length_dropWhile_le)
  finally show "((rest, sep), (s, sep)) \<in> measure (\<lambda>(s, sep). length s)" by simp
qed

declare Split.simps [simp del]

definition Replace_all :: "string \<Rightarrow> char \<Rightarrow> string \<Rightarrow> string" where
  "Replace_all s old new = concat (map (\<lambda>c. if c = old then new else [c]) s)"

fun parseKeyValuePairString_loop ::
  "string list \<Rightarrow> (string \<rightharpoonup> string) \<Rightarrow> (string \<rightharpoonup> string)" where
  "parseKeyValuePairString_loop [] propMap = propMap"
| "parseKeyValuePairString_loop (kvpRaw # props) propMap =
     (let kvp = Split kvpRaw (CHR ''='') in
      if length kvp = 2
      then parseKeyValuePairString_loop props
             (propMap(kvp ! 0 \<mapsto> Replace_all (kvp ! 1) (CHR 0x22) []))
      else parseKeyValuePairString_loop props propMap)"

definition parseKeyValuePairString :: "string \<Rightarrow> (string \<rightharpoonup> string)" where
  "parseKeyValuePairString propsRaw =
     parseKeyValuePairString_loop (Split propsRaw (CHR '' '')) Map.empty"

text \<open>
  What \<open>parseKeyValuePairString\<close> is meant to compute, written independently of the
  code: the tokens between single spaces; of those with exactly one \<open>=\<close>, the text
  before it as the key and the text after it, without double quotes, as the value;
  a later pair wins over an earlier one with the same key.
\<close>

definition split_on :: "char \<Rightarrow> string \<Rightarrow> string list" where
  "split_on sep s =
     foldr (\<lambda>c acc. if c = sep then [] # acc else (c # hd acc) # tl acc) s [[]]"

definition kvp_pairs :: "string list \<Rightarrow> (string \<times> string) list" where
  "kvp_pairs toks =
     [(takeWhile (\<lambda>c. c \<noteq> CHR ''='') t,
       filter (\<lambda>c. c \<noteq> CHR 0x22) (tl (dropWhile (\<lambda>c. c \<noteq> CHR ''='') t))).
        t \<leftarrow> toks, count_list t (CHR ''='') = 1]"

definition parseKeyValuePairString_spec :: "string \<Rightarrow> (string \<rightharpoonup> string)" where
  "parseKeyValuePairString_spec s = map_of (rev (kvp_pairs (split_on (CHR '' '') s)))"

subsection \<open>The result of a decode\<close>

text \<open>
  What \<open>loadHardwareConfig\<close> leaves in the \<open>NodeConfig\<close> and the error it returns,
  without the lines it logged.
\<close>

definition decoded ::
  "('s, 'd::zero, 'f::zero) externals \<Rightarrow> string \<Rightarrow> ('d, 'f) NodeConfig \<Rightarrow> Node
     \<Rightarrow> ('d, 'f) NodeConfig \<times> error option" where
  "decoded ext nodeId nodeConfig root =
     snd (loadHardwareConfig ext nodeId nodeConfig (Some \<lparr>Node = Some root\<rparr>))"

subsection \<open>Malformed leaves\<close>

text \<open>
  The leaves the decoder converts, and what it means for one to hold a value that does
  not convert: a processor's ordinal (its key segment) or one of its numeric
  properties, the memory's total size, a network adapter's non-empty speed.
\<close>

definition malformed_processor_property :: "('s, 'd, 'f) externals \<Rightarrow> Node \<Rightarrow> bool" where
  "malformed_processor_property ext q =
     (let n = GetLeafKeyPath ext (Key q) in
      (n \<in> {ProcPhysicalIDKey, ProcSiblingsKey, ProcCoreIDKey, ProcNumCoresKey, ProcBitsKey}
         \<and> isl (ParseUint (Value q) 32))
      \<or> (n = ProcSpeedKey \<and> isl (ParseFloat (ParseFloat64 ext) (Value q))))"

definition malformed_processor :: "('s, 'd, 'f) externals \<Rightarrow> Node \<Rightarrow> bool" where
  "malformed_processor ext p =
     (isl (ParseUint (GetLeafKeyPath ext (Key p)) 32)
      \<or> list_ex (malformed_processor_property ext) (Nodes p))"

definition malformed_memory_property :: "('s, 'd, 'f) externals \<Rightarrow> Node \<Rightarrow> bool" where
  "malformed_memory_property ext q =
     (GetLeafKeyPath ext (Key q) = MemoryTotalSizeKey \<and> isl (ParseUint (Value q) 64))"

definition malformed_network_property :: "('s, 'd, 'f) externals \<Rightarrow> Node \<Rightarrow> bool" where
  "malformed_network_property ext q =
     (GetLeafKeyPath ext (Key q) = NetworkSpeedKey \<and> Value q \<noteq> []
      \<and> isl (ParseUint (Value q) 64))"

definition malformed_component :: "('s, 'd, 'f) externals \<Rightarrow> Node \<Rightarrow> bool" where
  "malformed_component ext c =
     (let k = GetLeafKeyPath ext (Key c) in
      (k = ProcessorsKey \<and> list_ex (malformed_processor ext) (Nodes c))
      \<or> (k = MemoryKey \<and> list_ex (malformed_memory_property ext) (Nodes c))
      \<or> (k = NetworkKey
           \<and> list_ex (\<lambda>a. list_ex (malformed_network_property ext) (Nodes a)) (Nodes c)))"

definition malformed_subtree :: "('s, 'd, 'f) externals \<Rightarrow> Node \<Rightarrow> bool" where
  "malformed_subtree ext root = list_ex (malformed_component ext) (Nodes root)"

subsection \<open>A small cluster to run the loader on\<close>

text \<open>
  An instance of the parameters, for evaluating the functions on concrete input: keys
  are joined with \<open>/\<close> and their leaf is the last segment; the store is a table from
  keys to answers and its state the list of keys requested so far; a disk is
  described by the length of its value; the stand-in for \<open>float64\<close> is \<open>nat\<close>, parsed
  from an integer literal.
\<close>

definition example_join :: "string list \<Rightarrow> string" where
  "example_join segs = foldr (\<lambda>a b. if b = [] then a else a @ CHR ''/'' # b) segs []"

definition example_leaf :: "string \<Rightarrow> string" where
  "example_leaf key = last (Split key (CHR ''/''))"

definition example_client ::
  "(string \<times> (error + Response option)) list \<Rightarrow> string list KeysAPI" where
  "example_client table =
     \<lparr>Get = (\<lambda>key opts s.
        (case map_of table key of None \<Rightarrow> Inl (EtcdKeyNotFound key) | Some r \<Rightarrow> r,
         s @ [key]))\<rparr>"

definition example_ext :: "string list \<Rightarrow> (string list, nat, nat) externals" where
  "example_ext ids =
     \<lparr>DiscoveredNodesKey = ''/n'',
      path_Join = example_join,
      GetLeafKeyPath = example_leaf,
      GetDirChildKeys = (\<lambda>c key s. ((ids, None), s @ [key])),
      GetDiskInfo =
        (\<lambda>n. if Dir n then Inl (OtherError ''not a disk'') else Inr (length (Value n))),
      ParseFloat64 =
        (\<lambda>s. case ParseUint s 64 of Inl e \<Rightarrow> Inl e | Inr w \<Rightarrow> Inr (unat w))\<rparr>"

definition leaf :: "string \<Rightarrow> string \<Rightarrow> Node" where
  "leaf k v = mkNode k False v []"

definition dir :: "string \<Rightarrow> Node list \<Rightarrow> Node" where
  "dir k ns = mkNode k True [] ns"

definition found :: "Node \<Rightarrow> error + Response option" where
  "found n = Inr (Some \<lparr>Node = Some n\<rparr>)"

definition example_cpu :: Node where
  "example_cpu =
     dir ''/n/a/cpu''
       [dir ''/n/a/cpu/0'' [leaf ''/n/a/cpu/0/coreid'' ''3'', leaf ''/n/a/cpu/0/speed'' ''2400'']]"

definition example_mem :: Node where
  "example_mem = dir ''/n/a/mem'' [leaf ''/n/a/mem/totalsize'' ''1024'']"

definition example_net :: Node where
  "example_net =
     dir ''/n/a/net''
       [dir ''/n/a/net/eth0''
          [leaf ''/n/a/net/eth0/ipv4address'' ''10.0.0.7'', leaf ''/n/a/net/eth0/speed'' []]]"

definition example_disks :: Node where
  "example_disks =
     dir ''/n/a/disks'' [leaf ''/n/a/disks/sda'' ''ssd'', leaf ''/n/a/disks/sdb'' ''hd'']"

definition example_tree :: Node where
  "example_tree =
     dir ''/n/a''
       [example_cpu, example_mem, example_net, example_disks,
        leaf ''/n/a/ipaddress'' ''10.0.0.1'']"

definition example_store :: "(string \<times> (error + Response option)) list" where
  "example_store =
     [(''/n/a'', found (dir ''/n/a'' [example_mem, leaf ''/n/a/ipaddress'' ''10.0.0.9''])),
      (''/n/a/ipaddress'', found (leaf ''/n/a/ipaddress'' ''10.0.0.1'')),
      (''/n/c'', Inl (OtherError ''timeout'')),
      (''/n/c/ipaddress'', found (leaf ''/n/c/ipaddress'' ''10.0.0.3'')),
      (''/n/d'', found (dir ''/n/d'' [])),
      (''/n/e'', found (dir ''/n/e'' [dir ''/n/e/mem'' [leaf ''/n/e/mem/totalsize'' ''lots'']]))]"

section \<open>Properties\<close>


lemmas example_defs =
  example_join_def example_leaf_def example_client_def example_ext_def leaf_def dir_def
  found_def example_cpu_def example_mem_def example_net_def example_disks_def
  example_tree_def example_store_def

lemmas key_defs =
  IpAddressKey_def DisksKey_def ProcessorsKey_def NetworkKey_def MemoryKey_def
  ProcPhysicalIDKey_def ProcSiblingsKey_def ProcCoreIDKey_def ProcNumCoresKey_def
  ProcSpeedKey_def ProcBitsKey_def MemoryTotalSizeKey_def NetworkIPv4AddressKey_def
  NetworkIPv6AddressKey_def NetworkSpeedKey_def

lemmas decoder_defs =
  loadHardwareConfig_def loadHardwareComponent_def loadDisksConfig_def
  loadProcessorsConfig_def loadProcessor_def loadProcessorProperty_def loadMemoryConfig_def
  loadMemoryProperty_def loadNetworkConfig_def loadNetworkAdapter_def
  loadNetworkProperty_def loadIPAddressConfig_def ParseFloat_def
  NodeConfig_zero_def ProcessorConfig_zero_def MemoryConfig_zero_def NetworkConfig_zero_def

lemmas loader_defs =
  loadNodeConfig_def loadNode_def storeIpAddress_def GetIpAddress_def GetNodeConfigKey_def


subsection \<open>Splitting\<close>

lemma Split_no_sep:
  assumes "sep \<notin> set s"
  shows "Split s sep = [s]"
proof -
  from assms have "dropWhile (\<lambda>c. c \<noteq> sep) s = []" by auto
  then show ?thesis
    by (subst Split.simps) (simp del: dropWhile_eq_Nil_conv)
qed

lemma Split_at_sep:
  assumes "sep \<notin> set a"
  shows "Split (a @ sep # rest) sep = a # Split rest sep"
proof -
  from assms have "dropWhile (\<lambda>c. c \<noteq> sep) (a @ sep # rest) = sep # rest"
    by (auto simp: dropWhile_append3)
  moreover from assms have "takeWhile (\<lambda>c. c \<noteq> sep) (a @ sep # rest) = a"
    by (auto simp: takeWhile_tail)
  ultimately show ?thesis
    by (subst Split.simps) simp
qed

lemma Split_Nil: "Split [] sep = [[]]"
  by (simp add: Split_no_sep)

lemma Split_Cons:
  "Split (c # cs) sep =
     (if c = sep then [] # Split cs sep else (c # hd (Split cs sep)) # tl (Split cs sep))"
proof (cases "c = sep")
  case True
  then show ?thesis using Split_at_sep [of sep "[]" cs] by simp
next
  case False
  show ?thesis
  proof (cases "sep \<in> set cs")
    case True
    then obtain a rest where cs: "cs = a @ sep # rest" and a: "sep \<notin> set a"
      by (auto dest: split_list_first)
    from a False have "sep \<notin> set (c # a)" by simp
    then have "Split ((c # a) @ sep # rest) sep = (c # a) # Split rest sep"
      by (rule Split_at_sep)
    with False cs a show ?thesis by (simp add: Split_at_sep)
  next
    case no: False
    with False have "sep \<notin> set (c # cs)" by simp
    with no False show ?thesis by (simp add: Split_no_sep)
  qed
qed

lemma Split_split_on: "Split s sep = split_on sep s"
  by (induction s) (simp_all add: Split_Nil Split_Cons split_on_def)

lemma length_Split: "length (Split s sep) = Suc (count_list s sep)"
proof (induction s)
  case Nil
  show ?case by (simp add: Split_Nil)
next
  case (Cons c cs)
  then show ?case
    by (cases "Split cs sep") (simp_all add: Split_Cons)
qed

lemma Split_once:
  assumes "count_list s sep = 1"
  shows "Split s sep = [takeWhile (\<lambda>c. c \<noteq> sep) s, tl (dropWhile (\<lambda>c. c \<noteq> sep) s)]"
proof -
  from assms have "sep \<in> set s"
    by (metis count_list_0_iff zero_neq_one)
  then obtain a rest where s: "s = a @ sep # rest" and a: "sep \<notin> set a"
    by (auto dest: split_list_first)
  from a have "count_list a sep = 0" by (simp add: count_list_0_iff)
  with assms s have "count_list rest sep = 0" by simp
  then have rest: "sep \<notin> set rest" by (simp add: count_list_0_iff)
  from a have "takeWhile (\<lambda>c. c \<noteq> sep) s = a" "dropWhile (\<lambda>c. c \<noteq> sep) s = sep # rest"
    unfolding s by (auto simp: takeWhile_tail dropWhile_append3)
  moreover have "Split s sep = [a, rest]"
    unfolding s using a rest by (simp add: Split_at_sep Split_no_sep)
  ultimately show ?thesis by simp
qed

lemma Replace_all_delete: "Replace_all s old [] = filter (\<lambda>c. c \<noteq> old) s"
  by (induction s) (simp_all add: Replace_all_def)

lemma parseKeyValuePairString_loop_pairs:
  "parseKeyValuePairString_loop props m = m ++ map_of (rev (kvp_pairs props))"
proof (induction props arbitrary: m)
  case Nil
  show ?case by (simp add: kvp_pairs_def)
next
  case (Cons t props)
  show ?case
  proof (cases "count_list t (CHR ''='') = 1")
    case True
    then show ?thesis
      by (simp add: Cons.IH Split_once Replace_all_delete kvp_pairs_def Let_def map_add_def
          fun_eq_iff split: option.splits)
  next
    case False
    then show ?thesis
      by (simp add: Cons.IH length_Split kvp_pairs_def Let_def)
  qed
qed

subsection \<open>Key-value pair strings\<close>

text \<open>
  C10: for every input string, \<open>parseKeyValuePairString\<close> returns the map described
  by \<open>parseKeyValuePairString_spec\<close>: the input is split on single spaces, exactly
  the tokens with one \<open>=\<close> (those that split into two parts) are kept, each sends the
  part before the \<open>=\<close> to the part after it with every double quote removed, tokens
  with no \<open>=\<close> or more than one contribute nothing, and a later pair with the same
  key overwrites an earlier one.
\<close>

theorem parseKeyValuePairString_refines_spec:
  "parseKeyValuePairString propsRaw = parseKeyValuePairString_spec propsRaw"
  by (simp add: parseKeyValuePairString_def parseKeyValuePairString_spec_def
      parseKeyValuePairString_loop_pairs Split_split_on)

subsection \<open>The bulk loader's loop\<close>

lemma loadNode_cases:
  assumes "loadNode ext etcdClient node nodesConfig s = (l, Returns (Inr m), s')"
  shows "m = nodesConfig \<or> (\<exists>c. m = nodesConfig(node \<mapsto> c))"
  using assms
  by (auto simp: loadNode_def storeIpAddress_def Let_def
      split: prod.splits sum.splits if_splits option.splits outcome.splits)

lemma loadNodeConfig_loop_other_keys:
  assumes "loadNodeConfig_loop ext etcdClient nodes nodesConfig s = (l, Returns (Inr m), s')"
    and "k \<notin> set nodes"
  shows "m k = nodesConfig k"
  using assms
proof (induction nodes arbitrary: nodesConfig s l)
  case Nil
  then show ?case by simp
next
  case (Cons node nodes)
  obtain l1 r1 s1 where step: "loadNode ext etcdClient node nodesConfig s = (l1, r1, s1)"
    by (cases "loadNode ext etcdClient node nodesConfig s") auto
  show ?case
  proof (cases r1)
    case Panics
    with step Cons.prems show ?thesis by simp
  next
    case (Returns x)
    show ?thesis
    proof (cases x)
      case (Inl e)
      with step Returns Cons.prems show ?thesis by simp
    next
      case (Inr m1)
      obtain l2 r2 where rest: "loadNodeConfig_loop ext etcdClient nodes m1 s1 = (l2, r2)"
        by (cases "loadNodeConfig_loop ext etcdClient nodes m1 s1") auto
      with step Returns Inr Cons.prems have "r2 = (Returns (Inr m), s')" by simp
      with rest Cons.IH [of m1 s1 l2] Cons.prems(2) have "m k = m1 k" by simp
      moreover from step Returns Inr have "m1 = nodesConfig \<or> (\<exists>c. m1 = nodesConfig(node \<mapsto> c))"
        by (auto dest: loadNode_cases)
      ultimately show ?thesis using Cons.prems(2) by auto
    qed
  qed
qed

lemma loadNodeConfig_loop_continue:
  assumes "loadNode ext etcdClient node nodesConfig s = (l, Returns (Inr m), s')"
  shows "loadNodeConfig_loop ext etcdClient (node # nodes) nodesConfig s =
           (case loadNodeConfig_loop ext etcdClient nodes m s' of (l', r) \<Rightarrow> (l @ l', r))"
  using assms by simp

lemma loadNodeConfig_loop_abort:
  assumes "loadNode ext etcdClient node nodesConfig s = (l, Returns (Inl e), s')"
  shows "loadNodeConfig_loop ext etcdClient (node # nodes) nodesConfig s = (l, Returns (Inl e), s')"
  using assms by simp

lemma loadNode_not_found:
  assumes "Get etcdClient (GetNodeConfigKey ext node) (Some \<lparr>Recursive = True\<rparr>) s = (Inl err, s1)"
    and "IsEtcdKeyNotFound err"
  shows "loadNode ext etcdClient node nodesConfig s = ([SkippingNode node], Returns (Inr nodesConfig), s1)"
  using assms by (simp add: loadNode_def)

lemma loadNode_fetch_failed:
  assumes "Get etcdClient (GetNodeConfigKey ext node) (Some \<lparr>Recursive = True\<rparr>) s = (Inl err, s1)"
    and "\<not> IsEtcdKeyNotFound err"
  shows "loadNode ext etcdClient node nodesConfig s =
           (case storeIpAddress ext etcdClient node NodeConfig_zero nodesConfig s1 of
              (l', r) \<Rightarrow> (FailedHardwareInfo node err # l', r))"
  using assms by (simp add: loadNode_def)

lemma loadNode_decoded:
  assumes "Get etcdClient (GetNodeConfigKey ext node) (Some \<lparr>Recursive = True\<rparr>) s = (Inr nodeInfo, s1)"
    and "loadHardwareConfig ext node NodeConfig_zero nodeInfo = (l, c, None)"
  shows "loadNode ext etcdClient node nodesConfig s =
           (case storeIpAddress ext etcdClient node c nodesConfig s1 of
              (l', r) \<Rightarrow> (l @ l', r))"
  using assms by (simp add: loadNode_def)

lemma loadNode_decode_failed:
  assumes "Get etcdClient (GetNodeConfigKey ext node) (Some \<lparr>Recursive = True\<rparr>) s = (Inr nodeInfo, s1)"
    and "loadHardwareConfig ext node NodeConfig_zero nodeInfo = (l, c, Some err)"
  shows "loadNode ext etcdClient node nodesConfig s =
           (l @ [FailedParseHardware node err], Returns (Inl err), s1)"
  using assms by (simp add: loadNode_def)

lemma storeIpAddress_ok:
  assumes "GetIpAddress ext etcdClient node s = (l, Returns (Inr ipAddr), s')"
  shows "storeIpAddress ext etcdClient node c nodesConfig s =
           (l, Returns (Inr (nodesConfig(node \<mapsto> c\<lparr>IPAddress := ipAddr\<rparr>))), s')"
  using assms by (simp add: storeIpAddress_def)

lemma storeIpAddress_failed:
  assumes "GetIpAddress ext etcdClient node s = (l, Returns (Inl err), s')"
  shows "storeIpAddress ext etcdClient node c nodesConfig s =
           (l @ [FailedIPAddress node err], Returns (Inl err), s')"
  using assms by (simp add: storeIpAddress_def)


text \<open>
  C9: a node id whose recursive fetch fails with key-not-found is logged and skipped:
  the pass over it logs one line, leaves the mapping as it was and the store in the
  state right after that one request (no decode, no request for the IP address); the
  loop goes on with the remaining node ids from there and returns what they give, and
  a mapping it returns has no entry for the node unless one was there before or the
  id comes again.
\<close>

theorem not_found_node_is_skipped:
  assumes "Get etcdClient (GetNodeConfigKey ext node) (Some \<lparr>Recursive = True\<rparr>) s = (Inl err, s1)"
    and "IsEtcdKeyNotFound err"
    and "loadNodeConfig_loop ext etcdClient nodes nodesConfig s1 = (l, r, s')"
  shows "loadNode ext etcdClient node nodesConfig s
           = ([SkippingNode node], Returns (Inr nodesConfig), s1)
       \<and> loadNodeConfig_loop ext etcdClient (node # nodes) nodesConfig s
           = (SkippingNode node # l, r, s')
       \<and> (\<forall>m. r = Returns (Inr m) \<longrightarrow> node \<notin> set nodes \<longrightarrow> m node = nodesConfig node)"
proof -
  have step: "loadNode ext etcdClient node nodesConfig s
                = ([SkippingNode node], Returns (Inr nodesConfig), s1)"
    using assms(1,2) by (rule loadNode_not_found)
  then have "loadNodeConfig_loop ext etcdClient (node # nodes) nodesConfig s
               = (SkippingNode node # l, r, s')"
    using assms(3) by (simp add: loadNodeConfig_loop_continue)
  moreover have "m node = nodesConfig node" if "r = Returns (Inr m)" "node \<notin> set nodes" for m
    using assms(3) that by (auto dest: loadNodeConfig_loop_other_keys)
  ultimately show ?thesis using step by blast
qed

theorem not_found_node_is_skipped_witness:
  "Get (example_client example_store) (GetNodeConfigKey (example_ext [''b'', ''a'']) ''b'')
       (Some \<lparr>Recursive = True\<rparr>) [''/n'']
     = (Inl (EtcdKeyNotFound ''/n/b''), [''/n'', ''/n/b''])
   \<and> IsEtcdKeyNotFound (EtcdKeyNotFound ''/n/b'')
   \<and> loadNodeConfig_loop (example_ext [''b'', ''a'']) (example_client example_store)
        [''b'', ''a''] Map.empty [''/n'']
     = ([SkippingNode ''b''],
        Returns (Inr [''a'' \<mapsto> \<lparr>IPAddress = ''10.0.0.1'', Disks = [], Processors = [],
                                Memory = \<lparr>TotalSize = 1024\<rparr>, NetworkAdapters = []\<rparr>]),
        [''/n'', ''/n/b'', ''/n/a'', ''/n/a/ipaddress''])
   \<and> [''a'' \<mapsto> \<lparr>IPAddress = ''10.0.0.1'', Disks = [], Processors = [],
                   Memory = \<lparr>TotalSize = 1024\<rparr>, NetworkAdapters = []\<rparr>] ''b''
     = (Map.empty :: string \<rightharpoonup> (nat, nat) NodeConfig) ''b''"
proof -
  let ?ext = "example_ext [''b'', ''a'']" and ?c = "example_client example_store"
  let ?m = "[''a'' \<mapsto> \<lparr>IPAddress = ''10.0.0.1'', Disks = [], Processors = [],
                          Memory = \<lparr>TotalSize = 1024\<rparr>, NetworkAdapters = []\<rparr>]
            :: string \<rightharpoonup> (nat, nat) NodeConfig"
  have h1: "Get ?c (GetNodeConfigKey ?ext ''b'') (Some \<lparr>Recursive = True\<rparr>) [''/n'']
              = (Inl (EtcdKeyNotFound ''/n/b''), [''/n'', ''/n/b''])"
    by (simp add: example_defs GetNodeConfigKey_def)
  have h2: "IsEtcdKeyNotFound (EtcdKeyNotFound ''/n/b'')" by simp
  have p: "ParseUint ''1024'' 64 = Inr 1024" by code_simp
  have h3: "loadNodeConfig_loop ?ext ?c [''a''] Map.empty [''/n'', ''/n/b'']
              = ([], Returns (Inr ?m), [''/n'', ''/n/b'', ''/n/a'', ''/n/a/ipaddress''])"
    by (simp add: example_defs loader_defs decoder_defs key_defs Split.simps p)
  from not_found_node_is_skipped [OF h1 h2 h3] h1 h2 show ?thesis
    by (simp del: loadNodeConfig_loop.simps)
qed


text \<open>
  C1, as the claim states it, fails: node \<open>c\<close>'s recursive fetch fails with an error
  that is not key-not-found, and the returned mapping has an entry for \<open>c\<close>.
\<close>

theorem failed_fetch_node_has_entry_counterexample:
  "loadNodeConfig (example_ext [''c'']) (example_client example_store) []
     = ([Discovered 1, FailedHardwareInfo ''c'' (OtherError ''timeout'')],
        Returns (Inr [''c'' \<mapsto> NodeConfig_zero\<lparr>IPAddress := ''10.0.0.3''\<rparr>]),
        [''/n'', ''/n/c'', ''/n/c/ipaddress''])"
  by (simp add: example_defs loader_defs key_defs Let_def Split.simps)

text \<open>
  C1, amended: when the recursive fetch of a node's subtree fails with an error that is
  not key-not-found, the failure is logged, nothing is decoded, and the loader goes on
  to fetch the node's IP address. If that fetch returns an address, the node gets an
  entry that holds the address and zero values otherwise, and the loop continues with
  the next node id; if it returns an error, the load returns that error.
\<close>

theorem failed_fetch_node_keeps_ip_entry:
  assumes "Get etcdClient (GetNodeConfigKey ext node) (Some \<lparr>Recursive = True\<rparr>) s = (Inl err, s1)"
    and "\<not> IsEtcdKeyNotFound err"
  shows "(\<forall>l ip s2. GetIpAddress ext etcdClient node s1 = (l, Returns (Inr ip), s2) \<longrightarrow>
            loadNode ext etcdClient node nodesConfig s
              = (FailedHardwareInfo node err # l,
                 Returns (Inr (nodesConfig(node \<mapsto> NodeConfig_zero\<lparr>IPAddress := ip\<rparr>))), s2)
            \<and> loadNodeConfig_loop ext etcdClient (node # nodes) nodesConfig s
              = (case loadNodeConfig_loop ext etcdClient nodes
                        (nodesConfig(node \<mapsto> NodeConfig_zero\<lparr>IPAddress := ip\<rparr>)) s2 of
                   (l', r) \<Rightarrow> ((FailedHardwareInfo node err # l) @ l', r)))
       \<and> (\<forall>l e s2. GetIpAddress ext etcdClient node s1 = (l, Returns (Inl e), s2) \<longrightarrow>
            loadNodeConfig_loop ext etcdClient (node # nodes) nodesConfig s
              = (FailedHardwareInfo node err # l @ [FailedIPAddress node e], Returns (Inl e), s2))"
proof (intro conjI allI impI)
  fix l ip s2
  assume ip: "GetIpAddress ext etcdClient node s1 = (l, Returns (Inr ip), s2)"
  show step: "loadNode ext etcdClient node nodesConfig s
          = (FailedHardwareInfo node err # l,
             Returns (Inr (nodesConfig(node \<mapsto> NodeConfig_zero\<lparr>IPAddress := ip\<rparr>))), s2)"
    by (simp add: loadNode_fetch_failed [OF assms] storeIpAddress_ok [OF ip])
  show "loadNodeConfig_loop ext etcdClient (node # nodes) nodesConfig s
          = (case loadNodeConfig_loop ext etcdClient nodes
                    (nodesConfig(node \<mapsto> NodeConfig_zero\<lparr>IPAddress := ip\<rparr>)) s2 of
               (l', r) \<Rightarrow> ((FailedHardwareInfo node err # l) @ l', r))"
    by (rule loadNodeConfig_loop_continue [OF step])
next
  fix l e s2
  assume ip: "GetIpAddress ext etcdClient node s1 = (l, Returns (Inl e), s2)"
  have "loadNode ext etcdClient node nodesConfig s
          = (FailedHardwareInfo node err # l @ [FailedIPAddress node e], Returns (Inl e), s2)"
    by (simp add: loadNode_fetch_failed [OF assms] storeIpAddress_failed [OF ip])
  then show "loadNodeConfig_loop ext etcdClient (node # nodes) nodesConfig s
          = (FailedHardwareInfo node err # l @ [FailedIPAddress node e], Returns (Inl e), s2)"
    by (rule loadNodeConfig_loop_abort)
qed

theorem failed_fetch_node_keeps_ip_entry_witness:
  "Get (example_client example_store) (GetNodeConfigKey (example_ext [''c'']) ''c'')
       (Some \<lparr>Recursive = True\<rparr>) [''/n'']
     = (Inl (OtherError ''timeout''), [''/n'', ''/n/c''])
   \<and> \<not> IsEtcdKeyNotFound (OtherError ''timeout'')
   \<and> GetIpAddress (example_ext [''c'']) (example_client example_store) ''c'' [''/n'', ''/n/c'']
     = ([], Returns (Inr ''10.0.0.3''), [''/n'', ''/n/c'', ''/n/c/ipaddress''])
   \<and> loadNode (example_ext [''c'']) (example_client example_store) ''c'' Map.empty [''/n'']
     = ([FailedHardwareInfo ''c'' (OtherError ''timeout'')],
        Returns (Inr [''c'' \<mapsto> NodeConfig_zero\<lparr>IPAddress := ''10.0.0.3''\<rparr>]),
        [''/n'', ''/n/c'', ''/n/c/ipaddress''])"
proof -
  let ?ext = "example_ext [''c'']" and ?c = "example_client example_store"
  have h1: "Get ?c (GetNodeConfigKey ?ext ''c'') (Some \<lparr>Recursive = True\<rparr>) [''/n'']
              = (Inl (OtherError ''timeout''), [''/n'', ''/n/c''])"
    by (simp add: example_defs GetNodeConfigKey_def)
  have h2: "\<not> IsEtcdKeyNotFound (OtherError ''timeout'')" by simp
  have h3: "GetIpAddress ?ext ?c ''c'' [''/n'', ''/n/c'']
              = ([], Returns (Inr ''10.0.0.3''), [''/n'', ''/n/c'', ''/n/c/ipaddress''])"
    by (simp add: example_defs loader_defs key_defs Let_def)
  from failed_fetch_node_keeps_ip_entry [OF h1 h2, where nodes = "[]" and nodesConfig = Map.empty] h3
  have "loadNode ?ext ?c ''c'' Map.empty [''/n'']
          = ([FailedHardwareInfo ''c'' (OtherError ''timeout'')],
             Returns (Inr [''c'' \<mapsto> NodeConfig_zero\<lparr>IPAddress := ''10.0.0.3''\<rparr>]),
             [''/n'', ''/n/c'', ''/n/c/ipaddress''])"
    by blast
  with h1 h2 h3 show ?thesis by blast
qed

text \<open>
  C2, as the claim states it, fails: node \<open>b\<close> is in the listing and a request for its
  IP address would fail, but its subtree is not found, so the address is never
  requested (the store saw two keys only) and the load returns a mapping.
\<close>

theorem ip_address_not_fetched_counterexample:
  "loadNodeConfig (example_ext [''b'']) (example_client example_store) []
     = ([Discovered 1, SkippingNode ''b''], Returns (Inr Map.empty), [''/n'', ''/n/b''])
   \<and> GetIpAddress (example_ext [''b'']) (example_client example_store) ''b'' [''/n'', ''/n/b'']
     = ([FailedGetNodeID ''b'' (EtcdKeyNotFound ''/n/b/ipaddress'')],
        Returns (Inl (EtcdKeyNotFound ''/n/b/ipaddress'')),
        [''/n'', ''/n/b'', ''/n/b/ipaddress''])"
  by (simp add: example_defs loader_defs key_defs Let_def Split.simps)

text \<open>
  C2, amended: for every node id whose subtree fetch does not fail with key-not-found
  and whose decode, when the fetch succeeded, returns no error, the node's IP address
  is fetched via \<open>GetIpAddress\<close> and stored into the node's entry, overwriting the
  address the decode may have set; a failure of that fetch aborts the bulk load with
  its error.
\<close>

theorem ip_address_stored_or_load_aborted:
  assumes "Get etcdClient (GetNodeConfigKey ext node) (Some \<lparr>Recursive = True\<rparr>) s = (fetched, s1)"
    and "case fetched of
           Inl err \<Rightarrow> \<not> IsEtcdKeyNotFound err \<and> l0 = [FailedHardwareInfo node err] \<and> c = NodeConfig_zero
         | Inr nodeInfo \<Rightarrow> loadHardwareConfig ext node NodeConfig_zero nodeInfo = (l0, c, None)"
  shows "(\<forall>l ip s2. GetIpAddress ext etcdClient node s1 = (l, Returns (Inr ip), s2) \<longrightarrow>
            loadNode ext etcdClient node nodesConfig s
              = (l0 @ l, Returns (Inr (nodesConfig(node \<mapsto> c\<lparr>IPAddress := ip\<rparr>))), s2))
       \<and> (\<forall>l e s2. GetIpAddress ext etcdClient node s1 = (l, Returns (Inl e), s2) \<longrightarrow>
            loadNodeConfig_loop ext etcdClient (node # nodes) nodesConfig s
              = (l0 @ l @ [FailedIPAddress node e], Returns (Inl e), s2))"
proof -
  have step: "loadNode ext etcdClient node nodesConfig s =
                (case storeIpAddress ext etcdClient node c nodesConfig s1 of
                   (l', r) \<Rightarrow> (l0 @ l', r))"
  proof (cases fetched)
    case (Inl err)
    with assms show ?thesis by (simp add: loadNode_fetch_failed)
  next
    case (Inr nodeInfo)
    with assms show ?thesis by (simp add: loadNode_decoded)
  qed
  show ?thesis
  proof (intro conjI allI impI)
    fix l ip s2
    assume "GetIpAddress ext etcdClient node s1 = (l, Returns (Inr ip), s2)"
    then show "loadNode ext etcdClient node nodesConfig s
                 = (l0 @ l, Returns (Inr (nodesConfig(node \<mapsto> c\<lparr>IPAddress := ip\<rparr>))), s2)"
      by (simp add: step storeIpAddress_ok)
  next
    fix l e s2
    assume "GetIpAddress ext etcdClient node s1 = (l, Returns (Inl e), s2)"
    then have "loadNode ext etcdClient node nodesConfig s
                 = (l0 @ l @ [FailedIPAddress node e], Returns (Inl e), s2)"
      by (simp add: step storeIpAddress_failed)
    then show "loadNodeConfig_loop ext etcdClient (node # nodes) nodesConfig s
                 = (l0 @ l @ [FailedIPAddress node e], Returns (Inl e), s2)"
      by (rule loadNodeConfig_loop_abort)
  qed
qed

theorem ip_address_stored_or_load_aborted_witness:
  "loadNode (example_ext [''a'', ''d'']) (example_client example_store) ''a'' Map.empty [''/n'']
     = ([], Returns (Inr [''a'' \<mapsto> \<lparr>IPAddress = ''10.0.0.1'', Disks = [], Processors = [],
                                     Memory = \<lparr>TotalSize = 1024\<rparr>, NetworkAdapters = []\<rparr>]),
        [''/n'', ''/n/a'', ''/n/a/ipaddress''])
   \<and> IPAddress (fst (snd (loadHardwareConfig (example_ext [''a'', ''d'']) ''a'' NodeConfig_zero
        (Some \<lparr>Node = Some (dir ''/n/a'' [example_mem, leaf ''/n/a/ipaddress'' ''10.0.0.9''])\<rparr>))))
     = ''10.0.0.9''
   \<and> loadNodeConfig_loop (example_ext [''a'', ''d'']) (example_client example_store) [''d'', ''a'']
        Map.empty [''/n'']
     = ([FailedGetNodeID ''d'' (EtcdKeyNotFound ''/n/d/ipaddress''),
         FailedIPAddress ''d'' (EtcdKeyNotFound ''/n/d/ipaddress'')],
        Returns (Inl (EtcdKeyNotFound ''/n/d/ipaddress'')),
        [''/n'', ''/n/d'', ''/n/d/ipaddress''])"
proof -
  let ?ext = "example_ext [''a'', ''d'']" and ?c = "example_client example_store"
  let ?ta = "dir ''/n/a'' [example_mem, leaf ''/n/a/ipaddress'' ''10.0.0.9'']"
  let ?ca = "\<lparr>IPAddress = ''10.0.0.9'', Disks = [], Processors = [],
              Memory = \<lparr>TotalSize = 1024\<rparr>, NetworkAdapters = []\<rparr> :: (nat, nat) NodeConfig"
  have p: "ParseUint ''1024'' 64 = Inr 1024" by code_simp
  have a1: "Get ?c (GetNodeConfigKey ?ext ''a'') (Some \<lparr>Recursive = True\<rparr>) [''/n'']
              = (found ?ta, [''/n'', ''/n/a''])"
    by (simp add: example_defs GetNodeConfigKey_def)
  have a2': "loadHardwareConfig ?ext ''a'' NodeConfig_zero (Some \<lparr>Node = Some ?ta\<rparr>) = ([], ?ca, None)"
    by (simp add: example_defs decoder_defs key_defs Split.simps p)
  then have a2: "case found ?ta of
           Inl err \<Rightarrow> \<not> IsEtcdKeyNotFound err \<and> [] = [FailedHardwareInfo ''a'' err] \<and> ?ca = NodeConfig_zero
         | Inr nodeInfo \<Rightarrow> loadHardwareConfig ?ext ''a'' NodeConfig_zero nodeInfo = ([], ?ca, None)"
    by (simp add: found_def)
  have a3: "GetIpAddress ?ext ?c ''a'' [''/n'', ''/n/a'']
              = ([], Returns (Inr ''10.0.0.1''), [''/n'', ''/n/a'', ''/n/a/ipaddress''])"
    by (simp add: example_defs loader_defs key_defs Let_def)
  from ip_address_stored_or_load_aborted [OF a1 a2, where nodes = "[]" and nodesConfig = Map.empty] a3
  have A: "loadNode ?ext ?c ''a'' Map.empty [''/n'']
          = ([], Returns (Inr [''a'' \<mapsto> ?ca\<lparr>IPAddress := ''10.0.0.1''\<rparr>]),
             [''/n'', ''/n/a'', ''/n/a/ipaddress''])"
    by (simp del: loadNodeConfig_loop.simps)
  have d1: "Get ?c (GetNodeConfigKey ?ext ''d'') (Some \<lparr>Recursive = True\<rparr>) [''/n'']
              = (found (dir ''/n/d'' []), [''/n'', ''/n/d''])"
    by (simp add: example_defs GetNodeConfigKey_def)
  have d2: "case found (dir ''/n/d'' []) of
           Inl err \<Rightarrow> \<not> IsEtcdKeyNotFound err \<and> [] = [FailedHardwareInfo ''d'' err]
                        \<and> (NodeConfig_zero :: (nat, nat) NodeConfig) = NodeConfig_zero
         | Inr nodeInfo \<Rightarrow> loadHardwareConfig ?ext ''d'' NodeConfig_zero nodeInfo = ([], NodeConfig_zero, None)"
    by (simp add: found_def dir_def loadHardwareConfig_def)
  have d3: "GetIpAddress ?ext ?c ''d'' [''/n'', ''/n/d'']
              = ([FailedGetNodeID ''d'' (EtcdKeyNotFound ''/n/d/ipaddress'')],
                 Returns (Inl (EtcdKeyNotFound ''/n/d/ipaddress'')),
                 [''/n'', ''/n/d'', ''/n/d/ipaddress''])"
    by (simp add: example_defs loader_defs key_defs Let_def)
  from ip_address_stored_or_load_aborted [OF d1 d2, where nodes = "[''a'']" and nodesConfig = Map.empty] d3
  have D: "loadNodeConfig_loop ?ext ?c [''d'', ''a''] Map.empty [''/n'']
          = ([FailedGetNodeID ''d'' (EtcdKeyNotFound ''/n/d/ipaddress''),
              FailedIPAddress ''d'' (EtcdKeyNotFound ''/n/d/ipaddress'')],
             Returns (Inl (EtcdKeyNotFound ''/n/d/ipaddress'')),
             [''/n'', ''/n/d'', ''/n/d/ipaddress''])"
    by (simp del: loadNodeConfig_loop.simps)
  from A D a2' show ?thesis by simp
qed


subsection \<open>Errors of the decoder\<close>

lemma loadHardwareConfig_loop_error:
  assumes "c \<in> set cs"
    and "\<And>cfg. \<exists>e. snd (snd (loadHardwareComponent ext nodeId cfg c)) = Some e"
  shows "\<exists>e. snd (snd (loadHardwareConfig_loop ext nodeId cs cfg)) = Some e"
  using assms(1)
proof (induction cs arbitrary: cfg)
  case Nil
  then show ?case by simp
next
  case (Cons x cs)
  obtain l c1 r where x: "loadHardwareComponent ext nodeId cfg x = (l, c1, r)"
    by (cases "loadHardwareComponent ext nodeId cfg x") auto
  show ?case
  proof (cases r)
    case (Some e)
    with x show ?thesis by simp
  next
    case None
    with x assms(2) [of cfg] have "c \<noteq> x" by auto
    with Cons.prems have "c \<in> set cs" by simp
    from Cons.IH [OF this, of c1] x None show ?thesis
      by (auto split: prod.splits)
  qed
qed

lemma loadProcessorProperty_malformed:
  assumes "malformed_processor_property ext q"
  shows "\<exists>e. snd (loadProcessorProperty ext proc q) = Inl e"
  using assms
  by (auto simp: malformed_processor_property_def loadProcessorProperty_def Let_def key_defs isl_def)

lemma procProperties_malformed:
  assumes "q \<in> set qs" and "malformed_processor_property ext q"
  shows "\<exists>e. snd (procProperties ext proc qs) = Inl e"
  using assms(1)
proof (induction qs arbitrary: proc)
  case Nil
  then show ?case by simp
next
  case (Cons x qs)
  obtain l r where x: "loadProcessorProperty ext proc x = (l, r)"
    by (cases "loadProcessorProperty ext proc x") auto
  show ?case
  proof (cases r)
    case (Inl e)
    with x show ?thesis by simp
  next
    case (Inr proc')
    with x loadProcessorProperty_malformed [OF assms(2), of proc] have "q \<noteq> x" by auto
    with Cons.prems have "q \<in> set qs" by simp
    from Cons.IH [OF this, of proc'] x Inr show ?thesis
      by (auto split: prod.splits)
  qed
qed

lemma loadProcessor_malformed:
  assumes "malformed_processor ext p"
  shows "\<exists>e. snd (loadProcessor ext p) = Inl e"
proof (cases "ParseUint (GetLeafKeyPath ext (Key p)) 32")
  case (Inl e)
  then show ?thesis by (simp add: loadProcessor_def)
next
  case (Inr procID)
  with assms obtain q where "q \<in> set (Nodes p)" "malformed_processor_property ext q"
    by (auto simp: malformed_processor_def list_ex_iff)
  then show ?thesis
    using Inr by (simp add: loadProcessor_def procProperties_malformed)
qed

lemma loadProcessorsConfig_loop_malformed:
  assumes "p \<in> set ps" and "malformed_processor ext p"
  shows "\<exists>e. snd (snd (loadProcessorsConfig_loop ext i ps cfg)) = Some e"
  using assms(1)
proof (induction ps arbitrary: i cfg)
  case Nil
  then show ?case by simp
next
  case (Cons x ps)
  obtain l r where x: "loadProcessor ext x = (l, r)"
    by (cases "loadProcessor ext x") auto
  show ?case
  proof (cases r)
    case (Inl e)
    with x show ?thesis by simp
  next
    case (Inr proc)
    with x loadProcessor_malformed [OF assms(2)] have "p \<noteq> x" by auto
    with Cons.prems have "p \<in> set ps" by simp
    from Cons.IH [OF this, of "Suc i" "cfg\<lparr>Processors := (Processors cfg)[i := proc]\<rparr>"] x Inr
    show ?thesis by (auto split: prod.splits)
  qed
qed

lemma loadMemoryProperty_malformed:
  assumes "malformed_memory_property ext q"
  shows "\<exists>e. snd (loadMemoryProperty ext mem q) = Inl e"
  using assms
  by (auto simp: malformed_memory_property_def loadMemoryProperty_def Let_def isl_def)

lemma memProperties_malformed:
  assumes "q \<in> set qs" and "malformed_memory_property ext q"
  shows "\<exists>e. snd (memProperties ext mem qs) = Inl e"
  using assms(1)
proof (induction qs arbitrary: mem)
  case Nil
  then show ?case by simp
next
  case (Cons x qs)
  obtain l r where x: "loadMemoryProperty ext mem x = (l, r)"
    by (cases "loadMemoryProperty ext mem x") auto
  show ?case
  proof (cases r)
    case (Inl e)
    with x show ?thesis by simp
  next
    case (Inr mem')
    with x loadMemoryProperty_malformed [OF assms(2), of mem] have "q \<noteq> x" by auto
    with Cons.prems have "q \<in> set qs" by simp
    from Cons.IH [OF this, of mem'] x Inr show ?thesis
      by (auto split: prod.splits)
  qed
qed

lemma loadNetworkProperty_malformed:
  assumes "malformed_network_property ext q"
  shows "\<exists>e. snd (loadNetworkProperty ext net q) = Inl e"
  using assms
  by (auto simp: malformed_network_property_def loadNetworkProperty_def Let_def key_defs isl_def)

lemma netProperties_malformed:
  assumes "q \<in> set qs" and "malformed_network_property ext q"
  shows "\<exists>e. snd (netProperties ext net qs) = Inl e"
  using assms(1)
proof (induction qs arbitrary: net)
  case Nil
  then show ?case by simp
next
  case (Cons x qs)
  obtain l r where x: "loadNetworkProperty ext net x = (l, r)"
    by (cases "loadNetworkProperty ext net x") auto
  show ?case
  proof (cases r)
    case (Inl e)
    with x show ?thesis by simp
  next
    case (Inr net')
    with x loadNetworkProperty_malformed [OF assms(2), of net] have "q \<noteq> x" by auto
    with Cons.prems have "q \<in> set qs" by simp
    from Cons.IH [OF this, of net'] x Inr show ?thesis
      by (auto split: prod.splits)
  qed
qed

lemma loadNetworkConfig_loop_malformed:
  assumes "a \<in> set as" and "q \<in> set (Nodes a)" and "malformed_network_property ext q"
  shows "\<exists>e. snd (snd (loadNetworkConfig_loop ext i as cfg)) = Some e"
  using assms(1)
proof (induction as arbitrary: i cfg)
  case Nil
  then show ?case by simp
next
  case (Cons x as)
  obtain l r where x: "loadNetworkAdapter ext x = (l, r)"
    by (cases "loadNetworkAdapter ext x") auto
  show ?case
  proof (cases r)
    case (Inl e)
    with x show ?thesis by simp
  next
    case (Inr net)
    with x netProperties_malformed [OF assms(2,3),
        of "NetworkConfig_zero\<lparr>Name := GetLeafKeyPath ext (Key a)\<rparr>"]
    have "a \<noteq> x"
      by (auto simp: loadNetworkAdapter_def)
    with Cons.prems have "a \<in> set as" by simp
    from Cons.IH [OF this, of "Suc i" "cfg\<lparr>NetworkAdapters := (NetworkAdapters cfg)[i := net]\<rparr>"] x Inr
    show ?thesis by (auto split: prod.splits)
  qed
qed

lemma loadHardwareComponent_malformed:
  assumes "malformed_component ext c"
  shows "\<exists>e. snd (snd (loadHardwareComponent ext nodeId cfg c)) = Some e"
proof -
  let ?k = "GetLeafKeyPath ext (Key c)"
  from assms consider
      (cpu) p where "?k = ProcessorsKey" "p \<in> set (Nodes c)" "malformed_processor ext p"
    | (mem) q where "?k = MemoryKey" "q \<in> set (Nodes c)" "malformed_memory_property ext q"
    | (net) a q where "?k = NetworkKey" "a \<in> set (Nodes c)" "q \<in> set (Nodes a)"
        "malformed_network_property ext q"
    by (auto simp: malformed_component_def Let_def list_ex_iff)
  then show ?thesis
  proof cases
    case cpu
    from loadProcessorsConfig_loop_malformed [OF cpu(2,3)]
    obtain e where "snd (snd (loadProcessorsConfig ext cfg c)) = Some e"
      by (auto simp: loadProcessorsConfig_def)
    with cpu(1) show ?thesis
      by (auto simp: loadHardwareComponent_def key_defs split: prod.splits)
  next
    case mem
    from memProperties_malformed [OF mem(2,3), of MemoryConfig_zero]
    obtain e where "snd (memProperties ext MemoryConfig_zero (Nodes c)) = Inl e"
      by blast
    then have "snd (snd (loadMemoryConfig ext cfg c)) = Some e"
      by (cases "memProperties ext MemoryConfig_zero (Nodes c)") (simp add: loadMemoryConfig_def)
    with mem(1) show ?thesis
      by (auto simp: loadHardwareComponent_def key_defs split: prod.splits)
  next
    case net
    from loadNetworkConfig_loop_malformed [OF net(2,3,4)]
    obtain e where "snd (snd (loadNetworkConfig ext cfg c)) = Some e"
      by (auto simp: loadNetworkConfig_def)
    with net(1) show ?thesis
      by (auto simp: loadHardwareComponent_def key_defs split: prod.splits)
  qed
qed

lemma loadHardwareConfig_malformed:
  assumes "malformed_subtree ext root"
  shows "\<exists>e. snd (snd (loadHardwareConfig ext nodeId cfg (Some \<lparr>Node = Some root\<rparr>))) = Some e"
proof -
  from assms obtain c where "c \<in> set (Nodes root)" "malformed_component ext c"
    by (auto simp: malformed_subtree_def list_ex_iff)
  then show ?thesis
    by (simp add: loadHardwareConfig_def loadHardwareConfig_loop_error
        loadHardwareComponent_malformed)
qed


text \<open>
  C3: when a node's subtree holds a malformed value in a leaf the decoder converts (a
  processor's ordinal or numeric property, the memory's total size, a network
  adapter's non-empty speed), \<open>loadHardwareConfig\<close> returns an error; and when the
  bulk loader has fetched such a subtree for a node, it logs, stops there and returns
  no mapping and that error, so that no \<open>NodeConfig\<close> of the node reaches the caller.
\<close>

theorem malformed_leaf_aborts_load:
  assumes "malformed_subtree ext root"
  shows "(\<exists>e. snd (snd (loadHardwareConfig ext nodeId nodeConfig (Some \<lparr>Node = Some root\<rparr>))) = Some e)
       \<and> (\<forall>s1. Get etcdClient (GetNodeConfigKey ext node) (Some \<lparr>Recursive = True\<rparr>) s
                  = (Inr (Some \<lparr>Node = Some root\<rparr>), s1) \<longrightarrow>
            (\<exists>l c e. loadHardwareConfig ext node NodeConfig_zero (Some \<lparr>Node = Some root\<rparr>)
                        = (l, c, Some e)
                   \<and> loadNodeConfig_loop ext etcdClient (node # nodes) nodesConfig s
                        = (l @ [FailedParseHardware node e], Returns (Inl e), s1)))"
proof (intro conjI allI impI)
  show "\<exists>e. snd (snd (loadHardwareConfig ext nodeId nodeConfig (Some \<lparr>Node = Some root\<rparr>))) = Some e"
    using assms by (rule loadHardwareConfig_malformed)
next
  fix s1
  assume fetch: "Get etcdClient (GetNodeConfigKey ext node) (Some \<lparr>Recursive = True\<rparr>) s
                   = (Inr (Some \<lparr>Node = Some root\<rparr>), s1)"
  from loadHardwareConfig_malformed [OF assms, of node NodeConfig_zero]
  obtain l c e where dec: "loadHardwareConfig ext node NodeConfig_zero (Some \<lparr>Node = Some root\<rparr>)
                             = (l, c, Some e)"
    by (metis prod.collapse)
  from loadNode_decode_failed [OF fetch dec]
  have "loadNodeConfig_loop ext etcdClient (node # nodes) nodesConfig s
          = (l @ [FailedParseHardware node e], Returns (Inl e), s1)"
    by (rule loadNodeConfig_loop_abort)
  with dec show "\<exists>l c e. loadHardwareConfig ext node NodeConfig_zero (Some \<lparr>Node = Some root\<rparr>)
                        = (l, c, Some e)
                   \<and> loadNodeConfig_loop ext etcdClient (node # nodes) nodesConfig s
                        = (l @ [FailedParseHardware node e], Returns (Inl e), s1)"
    by blast
qed

theorem malformed_leaf_aborts_load_witness:
  "malformed_subtree (example_ext [''e'', ''a''])
     (dir ''/n/e'' [dir ''/n/e/mem'' [leaf ''/n/e/mem/totalsize'' ''lots'']])
   \<and> loadNodeConfig_loop (example_ext [''e'', ''a'']) (example_client example_store)
        [''e'', ''a''] Map.empty [''/n'']
     = ([FailedMemoryConfig ''e'' (ErrSyntax ''lots''),
         FailedParseHardware ''e'' (ErrSyntax ''lots'')],
        Returns (Inl (ErrSyntax ''lots'')), [''/n'', ''/n/e''])"
proof -
  let ?ext = "example_ext [''e'', ''a'']" and ?c = "example_client example_store"
  let ?t = "dir ''/n/e'' [dir ''/n/e/mem'' [leaf ''/n/e/mem/totalsize'' ''lots'']]"
  have p: "ParseUint ''lots'' 64 = Inl (ErrSyntax ''lots'')" by code_simp
  have h: "malformed_subtree ?ext ?t"
    by (simp add: malformed_subtree_def malformed_component_def malformed_memory_property_def
        example_defs key_defs Split.simps p)
  have f: "Get ?c (GetNodeConfigKey ?ext ''e'') (Some \<lparr>Recursive = True\<rparr>) [''/n'']
             = (Inr (Some \<lparr>Node = Some ?t\<rparr>), [''/n'', ''/n/e''])"
    by (simp add: example_defs GetNodeConfigKey_def)
  have d: "loadHardwareConfig ?ext ''e'' NodeConfig_zero (Some \<lparr>Node = Some ?t\<rparr>)
             = ([FailedMemoryConfig ''e'' (ErrSyntax ''lots'')], NodeConfig_zero,
                Some (ErrSyntax ''lots''))"
    by (simp add: example_defs decoder_defs key_defs Split.simps p)
  from malformed_leaf_aborts_load [OF h, where etcdClient = ?c and node = "''e''"
      and s = "[''/n'']" and nodes = "[''a'']" and nodesConfig = Map.empty] f d
  have "loadNodeConfig_loop ?ext ?c [''e'', ''a''] Map.empty [''/n'']
          = ([FailedMemoryConfig ''e'' (ErrSyntax ''lots''),
              FailedParseHardware ''e'' (ErrSyntax ''lots'')],
             Returns (Inl (ErrSyntax ''lots'')), [''/n'', ''/n/e''])"
    by (auto simp del: loadNodeConfig_loop.simps)
  with h show ?thesis by blast
qed



text \<open>
  C5, as the claim states it, fails: on a root without children \<open>loadHardwareConfig\<close>
  returns no error.
\<close>

theorem empty_root_decodes_counterexample:
  "loadHardwareConfig (example_ext []) ''d'' NodeConfig_zero
       (Some \<lparr>Node = Some (mkNode ''/n/d'' True [] [])\<rparr>)
     = ([], NodeConfig_zero, None)"
  by (simp add: loadHardwareConfig_def)

text \<open>
  C5, amended: \<open>loadHardwareConfig\<close> fails with the error "hardware info missing"
  whenever the response it is given is nil or has a nil root node; for a root that
  has no children it returns no error and leaves the \<open>NodeConfig\<close> as it was.
\<close>

theorem missing_response_or_root_is_error:
  "loadHardwareConfig ext nodeId nodeConfig None = ([], nodeConfig, Some HardwareInfoMissing)
   \<and> loadHardwareConfig ext nodeId nodeConfig (Some \<lparr>Node = None\<rparr>)
       = ([], nodeConfig, Some HardwareInfoMissing)
   \<and> loadHardwareConfig ext nodeId nodeConfig (Some \<lparr>Node = Some (mkNode k d v [])\<rparr>)
       = ([], nodeConfig, None)"
  by (simp add: loadHardwareConfig_def)

text \<open>
  C6: decoding an \<open>ipaddress\<close> child that is a directory returns an error, whatever
  children the directory has, and so does the decode of a subtree that has such a
  child; decoding an \<open>ipaddress\<close> child that is a plain leaf copies its value into
  \<open>IPAddress\<close> and returns no error.
\<close>

theorem ipaddress_directory_is_error:
  assumes "GetLeafKeyPath ext k = IpAddressKey"
  shows "loadIPAddressConfig nodeConfig (mkNode k True v ns)
           = ([], nodeConfig, Some (IPAddressNodeIsDir k))
       \<and> loadHardwareComponent ext nodeId nodeConfig (mkNode k True v ns)
           = ([FailedIPAddressConfig nodeId (IPAddressNodeIsDir k)], nodeConfig,
              Some (IPAddressNodeIsDir k))
       \<and> (mkNode k True v ns \<in> set (Nodes root) \<longrightarrow>
            (\<exists>e. snd (snd (loadHardwareConfig ext nodeId nodeConfig
                             (Some \<lparr>Node = Some root\<rparr>))) = Some e))
       \<and> loadIPAddressConfig nodeConfig (mkNode k False v ns)
           = ([], nodeConfig\<lparr>IPAddress := v\<rparr>, None)
       \<and> loadHardwareComponent ext nodeId nodeConfig (mkNode k False v ns)
           = ([], nodeConfig\<lparr>IPAddress := v\<rparr>, None)"
proof -
  have comp: "loadHardwareComponent ext nodeId cfg (mkNode k True v ns)
           = ([FailedIPAddressConfig nodeId (IPAddressNodeIsDir k)], cfg,
              Some (IPAddressNodeIsDir k))" for cfg
    using assms by (simp add: loadHardwareComponent_def loadIPAddressConfig_def key_defs)
  have "\<exists>e. snd (snd (loadHardwareConfig ext nodeId nodeConfig (Some \<lparr>Node = Some root\<rparr>))) = Some e"
    if "mkNode k True v ns \<in> set (Nodes root)"
    using that by (simp add: loadHardwareConfig_def loadHardwareConfig_loop_error comp)
  moreover have "loadHardwareComponent ext nodeId nodeConfig (mkNode k False v ns)
           = ([], nodeConfig\<lparr>IPAddress := v\<rparr>, None)"
    using assms by (simp add: loadHardwareComponent_def loadIPAddressConfig_def key_defs)
  ultimately show ?thesis
    by (simp add: comp loadIPAddressConfig_def)
qed

theorem ipaddress_directory_is_error_witness:
  "GetLeafKeyPath (example_ext []) ''/n/a/ipaddress'' = IpAddressKey
   \<and> loadHardwareComponent (example_ext []) ''a'' NodeConfig_zero
        (mkNode ''/n/a/ipaddress'' True ''10.0.0.1'' [example_mem])
     = ([FailedIPAddressConfig ''a'' (IPAddressNodeIsDir ''/n/a/ipaddress'')],
        NodeConfig_zero, Some (IPAddressNodeIsDir ''/n/a/ipaddress''))
   \<and> loadHardwareComponent (example_ext []) ''a'' NodeConfig_zero
        (mkNode ''/n/a/ipaddress'' False ''10.0.0.1'' [example_mem])
     = ([], NodeConfig_zero\<lparr>IPAddress := ''10.0.0.1''\<rparr>, None)"
proof -
  have h: "GetLeafKeyPath (example_ext []) ''/n/a/ipaddress'' = IpAddressKey"
    by (simp add: example_defs key_defs Split.simps)
  from ipaddress_directory_is_error [OF h] h show ?thesis by blast
qed


subsection \<open>One pass of each loop, without the log\<close>

lemma procProperties_step:
  "snd (procProperties ext proc (q # qs)) =
     (case snd (loadProcessorProperty ext proc q) of
        Inl e \<Rightarrow> Inl e
      | Inr proc' \<Rightarrow> snd (procProperties ext proc' qs))"
  by (simp split: prod.splits sum.splits)

lemma memProperties_step:
  "snd (memProperties ext mem (q # qs)) =
     (case snd (loadMemoryProperty ext mem q) of
        Inl e \<Rightarrow> Inl e
      | Inr mem' \<Rightarrow> snd (memProperties ext mem' qs))"
  by (simp split: prod.splits sum.splits)

lemma netProperties_step:
  "snd (netProperties ext net (q # qs)) =
     (case snd (loadNetworkProperty ext net q) of
        Inl e \<Rightarrow> Inl e
      | Inr net' \<Rightarrow> snd (netProperties ext net' qs))"
  by (simp split: prod.splits sum.splits)

lemma loadProcessorsConfig_loop_step:
  "snd (loadProcessorsConfig_loop ext i (p # ps) cfg) =
     (case snd (loadProcessor ext p) of
        Inl e \<Rightarrow> (cfg, Some e)
      | Inr proc \<Rightarrow>
          snd (loadProcessorsConfig_loop ext (Suc i) ps
                 (cfg\<lparr>Processors := (Processors cfg)[i := proc]\<rparr>)))"
  by (simp split: prod.splits sum.splits)

lemma loadNetworkConfig_loop_step:
  "snd (loadNetworkConfig_loop ext i (a # as) cfg) =
     (case snd (loadNetworkAdapter ext a) of
        Inl e \<Rightarrow> (cfg, Some e)
      | Inr net \<Rightarrow>
          snd (loadNetworkConfig_loop ext (Suc i) as
                 (cfg\<lparr>NetworkAdapters := (NetworkAdapters cfg)[i := net]\<rparr>)))"
  by (simp split: prod.splits sum.splits)

lemma loadHardwareConfig_loop_step:
  "snd (loadHardwareConfig_loop ext nodeId (c # cs) cfg) =
     (case snd (loadHardwareComponent ext nodeId cfg c) of
        (c1, Some e) \<Rightarrow> (c1, Some e)
      | (c1, None) \<Rightarrow> snd (loadHardwareConfig_loop ext nodeId cs c1))"
  by (simp split: prod.splits option.splits)

lemma loadHardwareComponent_result:
  "snd (loadHardwareComponent ext nodeId cfg c) =
     (let k = GetLeafKeyPath ext (Key c) in
      if k = DisksKey then snd (loadDisksConfig ext cfg c)
      else if k = ProcessorsKey then snd (loadProcessorsConfig ext cfg c)
      else if k = MemoryKey then snd (loadMemoryConfig ext cfg c)
      else if k = NetworkKey then snd (loadNetworkConfig ext cfg c)
      else if k = IpAddressKey then snd (loadIPAddressConfig cfg c)
      else (cfg, None))"
  by (simp add: loadHardwareComponent_def Let_def split: prod.splits option.splits)

lemma loadMemoryConfig_result:
  "snd (loadMemoryConfig ext cfg n) =
     (case snd (memProperties ext MemoryConfig_zero (Nodes n)) of
        Inl e \<Rightarrow> (cfg, Some e)
      | Inr mem \<Rightarrow> (cfg\<lparr>Memory := mem\<rparr>, None))"
  by (simp add: loadMemoryConfig_def split: prod.splits sum.splits)

subsection \<open>Unknown names\<close>

lemma procProperties_insert_unknown:
  assumes "GetLeafKeyPath ext (Key c) \<notin>
             {ProcPhysicalIDKey, ProcSiblingsKey, ProcCoreIDKey, ProcNumCoresKey, ProcSpeedKey,
              ProcBitsKey}"
  shows "snd (procProperties ext proc (qs @ c # rs)) = snd (procProperties ext proc (qs @ rs))"
proof (induction qs arbitrary: proc)
  case Nil
  from assms have "snd (loadProcessorProperty ext proc c) = Inr proc"
    by (simp add: loadProcessorProperty_def Let_def)
  then show ?case by (simp only: append_Nil procProperties_step sum.case)
next
  case (Cons q qs)
  show ?case by (simp only: append_Cons procProperties_step Cons.IH)
qed

lemma loadProcessorsConfig_loop_cong:
  assumes "snd (loadProcessor ext p') = snd (loadProcessor ext p)"
  shows "snd (loadProcessorsConfig_loop ext i (ps @ p' # ps2) cfg)
           = snd (loadProcessorsConfig_loop ext i (ps @ p # ps2) cfg)"
proof (induction ps arbitrary: i cfg)
  case Nil
  show ?case by (simp only: append_Nil loadProcessorsConfig_loop_step assms)
next
  case (Cons q ps)
  show ?case by (simp only: append_Cons loadProcessorsConfig_loop_step Cons.IH)
qed

lemma loadProcessorsConfig_insert_unknown:
  assumes "GetLeafKeyPath ext (Key c) \<notin>
             {ProcPhysicalIDKey, ProcSiblingsKey, ProcCoreIDKey, ProcNumCoresKey, ProcSpeedKey,
              ProcBitsKey}"
  shows "snd (loadProcessorsConfig ext cfg (mkNode k d v (ps @ mkNode pk pd pv (qs @ c # rs) # ps2)))
           = snd (loadProcessorsConfig ext cfg (mkNode k d v (ps @ mkNode pk pd pv (qs @ rs) # ps2)))"
proof -
  have "snd (loadProcessor ext (mkNode pk pd pv (qs @ c # rs)))
          = snd (loadProcessor ext (mkNode pk pd pv (qs @ rs)))"
    using procProperties_insert_unknown [OF assms]
    by (simp add: loadProcessor_def split: sum.splits)
  then have "snd (loadProcessorsConfig_loop ext 0 (ps @ mkNode pk pd pv (qs @ c # rs) # ps2) cfg0)
               = snd (loadProcessorsConfig_loop ext 0 (ps @ mkNode pk pd pv (qs @ rs) # ps2) cfg0)"
    for cfg0 by (rule loadProcessorsConfig_loop_cong)
  then show ?thesis
    by (simp add: loadProcessorsConfig_def)
qed

lemma memProperties_insert_unknown:
  assumes "GetLeafKeyPath ext (Key c) \<noteq> MemoryTotalSizeKey"
  shows "snd (memProperties ext mem (qs @ c # rs)) = snd (memProperties ext mem (qs @ rs))"
proof (induction qs arbitrary: mem)
  case Nil
  from assms have "snd (loadMemoryProperty ext mem c) = Inr mem"
    by (simp add: loadMemoryProperty_def Let_def)
  then show ?case by (simp only: append_Nil memProperties_step sum.case)
next
  case (Cons q qs)
  show ?case by (simp only: append_Cons memProperties_step Cons.IH)
qed

lemma loadMemoryConfig_insert_unknown:
  assumes "GetLeafKeyPath ext (Key c) \<noteq> MemoryTotalSizeKey"
  shows "snd (loadMemoryConfig ext cfg (mkNode k d v (qs @ c # rs)))
           = snd (loadMemoryConfig ext cfg (mkNode k d v (qs @ rs)))"
  by (simp only: loadMemoryConfig_result Node.sel memProperties_insert_unknown [OF assms])

lemma netProperties_insert_unknown:
  assumes "GetLeafKeyPath ext (Key c) \<notin>
             {NetworkIPv4AddressKey, NetworkIPv6AddressKey, NetworkSpeedKey}"
  shows "snd (netProperties ext net (qs @ c # rs)) = snd (netProperties ext net (qs @ rs))"
proof (induction qs arbitrary: net)
  case Nil
  from assms have "snd (loadNetworkProperty ext net c) = Inr net"
    by (simp add: loadNetworkProperty_def Let_def)
  then show ?case by (simp only: append_Nil netProperties_step sum.case)
next
  case (Cons q qs)
  show ?case by (simp only: append_Cons netProperties_step Cons.IH)
qed

lemma loadNetworkConfig_loop_cong:
  assumes "snd (loadNetworkAdapter ext a') = snd (loadNetworkAdapter ext a)"
  shows "snd (loadNetworkConfig_loop ext i (as @ a' # as2) cfg)
           = snd (loadNetworkConfig_loop ext i (as @ a # as2) cfg)"
proof (induction as arbitrary: i cfg)
  case Nil
  show ?case by (simp only: append_Nil loadNetworkConfig_loop_step assms)
next
  case (Cons q as)
  show ?case by (simp only: append_Cons loadNetworkConfig_loop_step Cons.IH)
qed

lemma loadNetworkConfig_insert_unknown:
  assumes "GetLeafKeyPath ext (Key c) \<notin>
             {NetworkIPv4AddressKey, NetworkIPv6AddressKey, NetworkSpeedKey}"
  shows "snd (loadNetworkConfig ext cfg (mkNode k d v (as @ mkNode ak ad av (qs @ c # rs) # as2)))
           = snd (loadNetworkConfig ext cfg (mkNode k d v (as @ mkNode ak ad av (qs @ rs) # as2)))"
proof -
  have "snd (loadNetworkAdapter ext (mkNode ak ad av (qs @ c # rs)))
          = snd (loadNetworkAdapter ext (mkNode ak ad av (qs @ rs)))"
    using netProperties_insert_unknown [OF assms] by (simp add: loadNetworkAdapter_def)
  then have "snd (loadNetworkConfig_loop ext 0 (as @ mkNode ak ad av (qs @ c # rs) # as2) cfg0)
               = snd (loadNetworkConfig_loop ext 0 (as @ mkNode ak ad av (qs @ rs) # as2) cfg0)"
    for cfg0 by (rule loadNetworkConfig_loop_cong)
  then show ?thesis
    by (simp add: loadNetworkConfig_def)
qed

lemma loadHardwareConfig_loop_cong:
  assumes "\<And>cfg. snd (loadHardwareComponent ext nodeId cfg c')
                  = snd (loadHardwareComponent ext nodeId cfg c)"
  shows "snd (loadHardwareConfig_loop ext nodeId (xs @ c' # ys) cfg)
           = snd (loadHardwareConfig_loop ext nodeId (xs @ c # ys) cfg)"
proof (induction xs arbitrary: cfg)
  case Nil
  show ?case by (simp only: append_Nil loadHardwareConfig_loop_step assms)
next
  case (Cons x xs)
  show ?case by (simp only: append_Cons loadHardwareConfig_loop_step Cons.IH)
qed

lemma loadHardwareConfig_loop_insert_unknown:
  assumes "GetLeafKeyPath ext (Key c) \<notin>
             {DisksKey, ProcessorsKey, MemoryKey, NetworkKey, IpAddressKey}"
  shows "snd (loadHardwareConfig_loop ext nodeId (xs @ c # ys) cfg)
           = snd (loadHardwareConfig_loop ext nodeId (xs @ ys) cfg)"
proof (induction xs arbitrary: cfg)
  case Nil
  from assms have "snd (loadHardwareComponent ext nodeId cfg c) = (cfg, None)"
    by (simp add: loadHardwareComponent_result Let_def)
  then show ?case
    by (simp only: append_Nil loadHardwareConfig_loop_step prod.case option.case)
next
  case (Cons x xs)
  show ?case by (simp only: append_Cons loadHardwareConfig_loop_step Cons.IH)
qed


text \<open>
  C7: a child with an unrecognized category name at the top level of a node's subtree,
  or a property with an unrecognized name under a processor, under the memory
  category or under a network adapter, changes nothing but the log: the decode of the
  subtree with it leaves the same \<open>NodeConfig\<close> and returns the same error, or none,
  as the decode of the subtree without it. In particular it cannot make the decode of
  a subtree of valid leaves fail.
\<close>

theorem unknown_names_are_skipped:
  "(GetLeafKeyPath ext (Key c) \<notin> {DisksKey, ProcessorsKey, MemoryKey, NetworkKey, IpAddressKey} \<longrightarrow>
      decoded ext nodeId nodeConfig (mkNode rk rd rv (xs @ c # ys))
        = decoded ext nodeId nodeConfig (mkNode rk rd rv (xs @ ys)))
   \<and> (GetLeafKeyPath ext k = ProcessorsKey
        \<and> GetLeafKeyPath ext (Key c) \<notin>
            {ProcPhysicalIDKey, ProcSiblingsKey, ProcCoreIDKey, ProcNumCoresKey, ProcSpeedKey,
             ProcBitsKey} \<longrightarrow>
      decoded ext nodeId nodeConfig
          (mkNode rk rd rv (xs @ mkNode k d v (ps @ mkNode pk pd pv (qs @ c # rs) # ps') # ys))
        = decoded ext nodeId nodeConfig
          (mkNode rk rd rv (xs @ mkNode k d v (ps @ mkNode pk pd pv (qs @ rs) # ps') # ys)))
   \<and> (GetLeafKeyPath ext k = MemoryKey
        \<and> GetLeafKeyPath ext (Key c) \<noteq> MemoryTotalSizeKey \<longrightarrow>
      decoded ext nodeId nodeConfig (mkNode rk rd rv (xs @ mkNode k d v (qs @ c # rs) # ys))
        = decoded ext nodeId nodeConfig (mkNode rk rd rv (xs @ mkNode k d v (qs @ rs) # ys)))
   \<and> (GetLeafKeyPath ext k = NetworkKey
        \<and> GetLeafKeyPath ext (Key c) \<notin>
            {NetworkIPv4AddressKey, NetworkIPv6AddressKey, NetworkSpeedKey} \<longrightarrow>
      decoded ext nodeId nodeConfig
          (mkNode rk rd rv (xs @ mkNode k d v (ps @ mkNode pk pd pv (qs @ c # rs) # ps') # ys))
        = decoded ext nodeId nodeConfig
          (mkNode rk rd rv (xs @ mkNode k d v (ps @ mkNode pk pd pv (qs @ rs) # ps') # ys)))"
proof (intro conjI impI)
  assume "GetLeafKeyPath ext (Key c) \<notin> {DisksKey, ProcessorsKey, MemoryKey, NetworkKey, IpAddressKey}"
  then show "decoded ext nodeId nodeConfig (mkNode rk rd rv (xs @ c # ys))
               = decoded ext nodeId nodeConfig (mkNode rk rd rv (xs @ ys))"
    by (simp add: decoded_def loadHardwareConfig_def loadHardwareConfig_loop_insert_unknown)
next
  assume a: "GetLeafKeyPath ext k = ProcessorsKey
        \<and> GetLeafKeyPath ext (Key c) \<notin>
            {ProcPhysicalIDKey, ProcSiblingsKey, ProcCoreIDKey, ProcNumCoresKey, ProcSpeedKey,
             ProcBitsKey}"
  let ?with = "mkNode k d v (ps @ mkNode pk pd pv (qs @ c # rs) # ps')"
  let ?without = "mkNode k d v (ps @ mkNode pk pd pv (qs @ rs) # ps')"
  have "snd (loadProcessorsConfig ext cfg ?with) = snd (loadProcessorsConfig ext cfg ?without)" for cfg
    using a by (intro loadProcessorsConfig_insert_unknown) simp
  with a have "snd (loadHardwareComponent ext nodeId cfg ?with)
                 = snd (loadHardwareComponent ext nodeId cfg ?without)" for cfg
    by (simp add: loadHardwareComponent_result key_defs)
  then have "snd (loadHardwareConfig_loop ext nodeId (xs @ ?with # ys) nodeConfig)
               = snd (loadHardwareConfig_loop ext nodeId (xs @ ?without # ys) nodeConfig)"
    by (rule loadHardwareConfig_loop_cong)
  then show "decoded ext nodeId nodeConfig (mkNode rk rd rv (xs @ ?with # ys))
               = decoded ext nodeId nodeConfig (mkNode rk rd rv (xs @ ?without # ys))"
    by (simp add: decoded_def loadHardwareConfig_def)
next
  assume a: "GetLeafKeyPath ext k = MemoryKey \<and> GetLeafKeyPath ext (Key c) \<noteq> MemoryTotalSizeKey"
  let ?with = "mkNode k d v (qs @ c # rs)"
  let ?without = "mkNode k d v (qs @ rs)"
  have "snd (loadMemoryConfig ext cfg ?with) = snd (loadMemoryConfig ext cfg ?without)" for cfg
    using a by (intro loadMemoryConfig_insert_unknown) simp
  with a have "snd (loadHardwareComponent ext nodeId cfg ?with)
                 = snd (loadHardwareComponent ext nodeId cfg ?without)" for cfg
    by (simp add: loadHardwareComponent_result key_defs)
  then have "snd (loadHardwareConfig_loop ext nodeId (xs @ ?with # ys) nodeConfig)
               = snd (loadHardwareConfig_loop ext nodeId (xs @ ?without # ys) nodeConfig)"
    by (rule loadHardwareConfig_loop_cong)
  then show "decoded ext nodeId nodeConfig (mkNode rk rd rv (xs @ ?with # ys))
               = decoded ext nodeId nodeConfig (mkNode rk rd rv (xs @ ?without # ys))"
    by (simp add: decoded_def loadHardwareConfig_def)
next
  assume a: "GetLeafKeyPath ext k = NetworkKey
        \<and> GetLeafKeyPath ext (Key c) \<notin>
            {NetworkIPv4AddressKey, NetworkIPv6AddressKey, NetworkSpeedKey}"
  let ?with = "mkNode k d v (ps @ mkNode pk pd pv (qs @ c # rs) # ps')"
  let ?without = "mkNode k d v (ps @ mkNode pk pd pv (qs @ rs) # ps')"
  have "snd (loadNetworkConfig ext cfg ?with) = snd (loadNetworkConfig ext cfg ?without)" for cfg
    using a by (intro loadNetworkConfig_insert_unknown) simp
  with a have "snd (loadHardwareComponent ext nodeId cfg ?with)
                 = snd (loadHardwareComponent ext nodeId cfg ?without)" for cfg
    by (simp add: loadHardwareComponent_result key_defs)
  then have "snd (loadHardwareConfig_loop ext nodeId (xs @ ?with # ys) nodeConfig)
               = snd (loadHardwareConfig_loop ext nodeId (xs @ ?without # ys) nodeConfig)"
    by (rule loadHardwareConfig_loop_cong)
  then show "decoded ext nodeId nodeConfig (mkNode rk rd rv (xs @ ?with # ys))
               = decoded ext nodeId nodeConfig (mkNode rk rd rv (xs @ ?without # ys))"
    by (simp add: decoded_def loadHardwareConfig_def)
qed


theorem unknown_names_are_skipped_witness:
  "decoded (example_ext []) ''a'' NodeConfig_zero
       (mkNode ''/n/a'' True [] ([example_mem] @ leaf ''/n/a/rack'' ''r1'' # []))
     = (NodeConfig_zero\<lparr>Memory := \<lparr>TotalSize = 1024\<rparr>\<rparr>, None)
   \<and> decoded (example_ext []) ''a'' NodeConfig_zero
       (mkNode ''/n/a'' True []
          ([] @ mkNode ''/n/a/cpu'' True []
                  ([] @ mkNode ''/n/a/cpu/0'' True []
                          ([leaf ''/n/a/cpu/0/coreid'' ''3''] @ leaf ''/n/a/cpu/0/model'' ''x''
                             # [leaf ''/n/a/cpu/0/speed'' ''2400'']) # []) # []))
     = (NodeConfig_zero\<lparr>Processors :=
          [ProcessorConfig_zero\<lparr>CoreID := 3, ProcSpeed := 2400\<rparr>]\<rparr>, None)
   \<and> decoded (example_ext []) ''a'' NodeConfig_zero
       (mkNode ''/n/a'' True []
          ([] @ mkNode ''/n/a/mem'' True []
                  ([] @ leaf ''/n/a/mem/free'' ''7'' # [leaf ''/n/a/mem/totalsize'' ''1024'']) # []))
     = (NodeConfig_zero\<lparr>Memory := \<lparr>TotalSize = 1024\<rparr>\<rparr>, None)
   \<and> decoded (example_ext []) ''a'' NodeConfig_zero
       (mkNode ''/n/a'' True []
          ([] @ mkNode ''/n/a/net'' True []
                  ([] @ mkNode ''/n/a/net/eth0'' True []
                          ([leaf ''/n/a/net/eth0/ipv4address'' ''10.0.0.7'']
                             @ leaf ''/n/a/net/eth0/mtu'' ''1500''
                             # [leaf ''/n/a/net/eth0/speed'' []]) # []) # []))
     = (NodeConfig_zero\<lparr>NetworkAdapters :=
          [\<lparr>Name = ''eth0'', IPv4Address = ''10.0.0.7'', IPv6Address = [], Speed = 0\<rparr>]\<rparr>, None)"
proof -
  let ?ext = "example_ext []"
  have p: "ParseUint ''1024'' 64 = Inr 1024" "ParseUint ''2400'' 64 = Inr 2400"
    "ParseUint ''3'' 32 = Inr 3" "ParseUint ''0'' 32 = Inr 0"
    by code_simp+
  have k1: "GetLeafKeyPath ?ext (Key (leaf ''/n/a/rack'' ''r1''))
              \<notin> {DisksKey, ProcessorsKey, MemoryKey, NetworkKey, IpAddressKey}"
    by (simp add: example_defs key_defs Split.simps)
  have k2: "GetLeafKeyPath ?ext ''/n/a/cpu'' = ProcessorsKey
        \<and> GetLeafKeyPath ?ext (Key (leaf ''/n/a/cpu/0/model'' ''x'')) \<notin>
            {ProcPhysicalIDKey, ProcSiblingsKey, ProcCoreIDKey, ProcNumCoresKey, ProcSpeedKey,
             ProcBitsKey}"
    by (simp add: example_defs key_defs Split.simps)
  have k3: "GetLeafKeyPath ?ext ''/n/a/mem'' = MemoryKey
        \<and> GetLeafKeyPath ?ext (Key (leaf ''/n/a/mem/free'' ''7'')) \<noteq> MemoryTotalSizeKey"
    by (simp add: example_defs key_defs Split.simps)
  have k4: "GetLeafKeyPath ?ext ''/n/a/net'' = NetworkKey
        \<and> GetLeafKeyPath ?ext (Key (leaf ''/n/a/net/eth0/mtu'' ''1500'')) \<notin>
            {NetworkIPv4AddressKey, NetworkIPv6AddressKey, NetworkSpeedKey}"
    by (simp add: example_defs key_defs Split.simps)
  have e1: "decoded ?ext ''a'' NodeConfig_zero (mkNode ''/n/a'' True [] ([example_mem] @ []))
              = (NodeConfig_zero\<lparr>Memory := \<lparr>TotalSize = 1024\<rparr>\<rparr>, None)"
    by (simp add: decoded_def example_defs decoder_defs key_defs Split.simps p)
  have e2: "decoded ?ext ''a'' NodeConfig_zero
       (mkNode ''/n/a'' True []
          ([] @ mkNode ''/n/a/cpu'' True []
                  ([] @ mkNode ''/n/a/cpu/0'' True []
                          ([leaf ''/n/a/cpu/0/coreid'' ''3'']
                             @ [leaf ''/n/a/cpu/0/speed'' ''2400'']) # []) # []))
     = (NodeConfig_zero\<lparr>Processors :=
          [ProcessorConfig_zero\<lparr>CoreID := 3, ProcSpeed := 2400\<rparr>]\<rparr>, None)"
    by (simp add: decoded_def example_defs decoder_defs key_defs Split.simps p)
  have e3: "decoded ?ext ''a'' NodeConfig_zero
       (mkNode ''/n/a'' True []
          ([] @ mkNode ''/n/a/mem'' True [] ([] @ [leaf ''/n/a/mem/totalsize'' ''1024'']) # []))
     = (NodeConfig_zero\<lparr>Memory := \<lparr>TotalSize = 1024\<rparr>\<rparr>, None)"
    by (simp add: decoded_def example_defs decoder_defs key_defs Split.simps p)
  have e4: "decoded ?ext ''a'' NodeConfig_zero
       (mkNode ''/n/a'' True []
          ([] @ mkNode ''/n/a/net'' True []
                  ([] @ mkNode ''/n/a/net/eth0'' True []
                          ([leaf ''/n/a/net/eth0/ipv4address'' ''10.0.0.7'']
                             @ [leaf ''/n/a/net/eth0/speed'' []]) # []) # []))
     = (NodeConfig_zero\<lparr>NetworkAdapters :=
          [\<lparr>Name = ''eth0'', IPv4Address = ''10.0.0.7'', IPv6Address = [], Speed = 0\<rparr>]\<rparr>, None)"
    by (simp add: decoded_def example_defs decoder_defs key_defs Split.simps p)
  note t = unknown_names_are_skipped [where ext = ?ext and nodeId = "''a''"
      and nodeConfig = NodeConfig_zero and rk = "''/n/a''" and rd = True and rv = "[]"
      and d = True and v = "[]" and pd = True and pv = "[]" and ys = "[]" and ps' = "[]"]
  have c1: "decoded ?ext ''a'' NodeConfig_zero
       (mkNode ''/n/a'' True [] ([example_mem] @ leaf ''/n/a/rack'' ''r1'' # []))
     = decoded ?ext ''a'' NodeConfig_zero (mkNode ''/n/a'' True [] ([example_mem] @ []))"
    using t [where c = "leaf ''/n/a/rack'' ''r1''" and xs = "[example_mem]", THEN conjunct1] k1
    by blast
  have c2: "decoded ?ext ''a'' NodeConfig_zero
       (mkNode ''/n/a'' True []
          ([] @ mkNode ''/n/a/cpu'' True []
                  ([] @ mkNode ''/n/a/cpu/0'' True []
                          ([leaf ''/n/a/cpu/0/coreid'' ''3''] @ leaf ''/n/a/cpu/0/model'' ''x''
                             # [leaf ''/n/a/cpu/0/speed'' ''2400'']) # []) # []))
     = decoded ?ext ''a'' NodeConfig_zero
       (mkNode ''/n/a'' True []
          ([] @ mkNode ''/n/a/cpu'' True []
                  ([] @ mkNode ''/n/a/cpu/0'' True []
                          ([leaf ''/n/a/cpu/0/coreid'' ''3'']
                             @ [leaf ''/n/a/cpu/0/speed'' ''2400'']) # []) # []))"
    using t [where c = "leaf ''/n/a/cpu/0/model'' ''x''" and xs = "[]" and k = "''/n/a/cpu''"
        and ps = "[]" and pk = "''/n/a/cpu/0''" and qs = "[leaf ''/n/a/cpu/0/coreid'' ''3'']"
        and rs = "[leaf ''/n/a/cpu/0/speed'' ''2400'']",
        THEN conjunct2, THEN conjunct1] k2
    by blast
  have c3: "decoded ?ext ''a'' NodeConfig_zero
       (mkNode ''/n/a'' True []
          ([] @ mkNode ''/n/a/mem'' True []
                  ([] @ leaf ''/n/a/mem/free'' ''7'' # [leaf ''/n/a/mem/totalsize'' ''1024'']) # []))
     = decoded ?ext ''a'' NodeConfig_zero
       (mkNode ''/n/a'' True []
          ([] @ mkNode ''/n/a/mem'' True [] ([] @ [leaf ''/n/a/mem/totalsize'' ''1024'']) # []))"
    using t [where c = "leaf ''/n/a/mem/free'' ''7''" and xs = "[]" and k = "''/n/a/mem''"
        and qs = "[]" and rs = "[leaf ''/n/a/mem/totalsize'' ''1024'']",
        THEN conjunct2, THEN conjunct2, THEN conjunct1] k3
    by blast
  have c4: "decoded ?ext ''a'' NodeConfig_zero
       (mkNode ''/n/a'' True []
          ([] @ mkNode ''/n/a/net'' True []
                  ([] @ mkNode ''/n/a/net/eth0'' True []
                          ([leaf ''/n/a/net/eth0/ipv4address'' ''10.0.0.7'']
                             @ leaf ''/n/a/net/eth0/mtu'' ''1500''
                             # [leaf ''/n/a/net/eth0/speed'' []]) # []) # []))
     = decoded ?ext ''a'' NodeConfig_zero
       (mkNode ''/n/a'' True []
          ([] @ mkNode ''/n/a/net'' True []
                  ([] @ mkNode ''/n/a/net/eth0'' True []
                          ([leaf ''/n/a/net/eth0/ipv4address'' ''10.0.0.7'']
                             @ [leaf ''/n/a/net/eth0/speed'' []]) # []) # []))"
    using t [where c = "leaf ''/n/a/net/eth0/mtu'' ''1500''" and xs = "[]" and k = "''/n/a/net''"
        and ps = "[]" and pk = "''/n/a/net/eth0''"
        and qs = "[leaf ''/n/a/net/eth0/ipv4address'' ''10.0.0.7'']"
        and rs = "[leaf ''/n/a/net/eth0/speed'' []]",
        THEN conjunct2, THEN conjunct2, THEN conjunct2] k4
    by blast
  show ?thesis
    by (simp only: c1 c2 c3 c4 e1 e2 e3 e4 simp_thms)
qed


subsection \<open>Sequences filled by index\<close>

lemma filled_prefix:
  assumes "i < length xs"
  shows "take (Suc i) (xs[i := x]) = take i xs @ [x]"
    and "drop (Suc (i + n)) (xs[i := x]) = drop (Suc (i + n)) xs"
  using assms by (simp_all add: take_Suc_conv_app_nth)

lemma loadDisksConfig_loop_ok:
  assumes "loadDisksConfig_loop ext i ns cfg = (l, cfg', None)"
    and "i + length ns \<le> length (Disks cfg)"
  shows "\<exists>ds. map (GetDiskInfo ext) ns = map Inr ds
           \<and> cfg' = cfg\<lparr>Disks := take i (Disks cfg) @ ds @ drop (i + length ns) (Disks cfg)\<rparr>"
  using assms
proof (induction ns arbitrary: i cfg l)
  case Nil
  then show ?case by simp
next
  case (Cons n ns)
  from Cons.prems(1) obtain d where d: "GetDiskInfo ext n = Inr d"
    by (cases "GetDiskInfo ext n") auto
  let ?cfg = "cfg\<lparr>Disks := (Disks cfg)[i := d]\<rparr>"
  from Cons.prems(1) d have "loadDisksConfig_loop ext (Suc i) ns ?cfg = (l, cfg', None)"
    by simp
  moreover from Cons.prems(2) have "Suc i + length ns \<le> length (Disks ?cfg)" by simp
  ultimately obtain ds where ds: "map (GetDiskInfo ext) ns = map Inr ds"
    and c: "cfg' = ?cfg\<lparr>Disks := take (Suc i) (Disks ?cfg) @ ds
                                  @ drop (Suc i + length ns) (Disks ?cfg)\<rparr>"
    using Cons.IH by blast
  from Cons.prems(2) have "i < length (Disks cfg)" by simp
  with c have "cfg' = cfg\<lparr>Disks := take i (Disks cfg) @ (d # ds)
                                 @ drop (i + length (n # ns)) (Disks cfg)\<rparr>"
    by (simp add: filled_prefix)
  with d ds show ?case by (intro exI [of _ "d # ds"]) simp
qed

lemma loadDisksConfig_ok:
  assumes "loadDisksConfig ext cfg n = (l, cfg', None)"
  shows "map (GetDiskInfo ext) (Nodes n) = map Inr (Disks cfg') \<and> cfg' = cfg\<lparr>Disks := Disks cfg'\<rparr>"
proof -
  let ?cfg = "cfg\<lparr>Disks := replicate (length (Nodes n)) 0\<rparr>"
  from assms have "loadDisksConfig_loop ext 0 (Nodes n) ?cfg = (l, cfg', None)"
    by (simp add: loadDisksConfig_def)
  from loadDisksConfig_loop_ok [OF this] show ?thesis by auto
qed

lemma loadProcessorsConfig_loop_ok:
  assumes "loadProcessorsConfig_loop ext i ns cfg = (l, cfg', None)"
    and "i + length ns \<le> length (Processors cfg)"
  shows "\<exists>ps. map (\<lambda>n. snd (loadProcessor ext n)) ns = map Inr ps
           \<and> cfg' = cfg\<lparr>Processors := take i (Processors cfg) @ ps
                                          @ drop (i + length ns) (Processors cfg)\<rparr>"
  using assms
proof (induction ns arbitrary: i cfg l)
  case Nil
  then show ?case by simp
next
  case (Cons n ns)
  from Cons.prems(1) obtain l1 p where p: "loadProcessor ext n = (l1, Inr p)"
    by (cases "loadProcessor ext n"; cases "snd (loadProcessor ext n)") auto
  let ?cfg = "cfg\<lparr>Processors := (Processors cfg)[i := p]\<rparr>"
  from Cons.prems(1) p obtain l2 where "loadProcessorsConfig_loop ext (Suc i) ns ?cfg = (l2, cfg', None)"
    by (auto split: prod.splits)
  moreover from Cons.prems(2) have "Suc i + length ns \<le> length (Processors ?cfg)" by simp
  ultimately obtain ps where ps: "map (\<lambda>n. snd (loadProcessor ext n)) ns = map Inr ps"
    and c: "cfg' = ?cfg\<lparr>Processors := take (Suc i) (Processors ?cfg) @ ps
                                  @ drop (Suc i + length ns) (Processors ?cfg)\<rparr>"
    using Cons.IH by blast
  from Cons.prems(2) have "i < length (Processors cfg)" by simp
  with c have "cfg' = cfg\<lparr>Processors := take i (Processors cfg) @ (p # ps)
                                 @ drop (i + length (n # ns)) (Processors cfg)\<rparr>"
    by (simp add: filled_prefix)
  with p ps show ?case by (intro exI [of _ "p # ps"]) simp
qed

lemma loadProcessorsConfig_ok:
  assumes "loadProcessorsConfig ext cfg n = (l, cfg', None)"
  shows "map (\<lambda>n. snd (loadProcessor ext n)) (Nodes n) = map Inr (Processors cfg')
           \<and> cfg' = cfg\<lparr>Processors := Processors cfg'\<rparr>"
proof -
  let ?cfg = "cfg\<lparr>Processors := replicate (length (Nodes n)) ProcessorConfig_zero\<rparr>"
  from assms have "loadProcessorsConfig_loop ext 0 (Nodes n) ?cfg = (l, cfg', None)"
    by (simp add: loadProcessorsConfig_def)
  from loadProcessorsConfig_loop_ok [OF this] show ?thesis by auto
qed

lemma loadNetworkConfig_loop_ok:
  assumes "loadNetworkConfig_loop ext i ns cfg = (l, cfg', None)"
    and "i + length ns \<le> length (NetworkAdapters cfg)"
  shows "\<exists>as. map (\<lambda>n. snd (loadNetworkAdapter ext n)) ns = map Inr as
           \<and> cfg' = cfg\<lparr>NetworkAdapters := take i (NetworkAdapters cfg) @ as
                                          @ drop (i + length ns) (NetworkAdapters cfg)\<rparr>"
  using assms
proof (induction ns arbitrary: i cfg l)
  case Nil
  then show ?case by simp
next
  case (Cons n ns)
  from Cons.prems(1) obtain l1 a where a: "loadNetworkAdapter ext n = (l1, Inr a)"
    by (cases "loadNetworkAdapter ext n"; cases "snd (loadNetworkAdapter ext n)") auto
  let ?cfg = "cfg\<lparr>NetworkAdapters := (NetworkAdapters cfg)[i := a]\<rparr>"
  from Cons.prems(1) a obtain l2 where "loadNetworkConfig_loop ext (Suc i) ns ?cfg = (l2, cfg', None)"
    by (auto split: prod.splits)
  moreover from Cons.prems(2) have "Suc i + length ns \<le> length (NetworkAdapters ?cfg)" by simp
  ultimately obtain as where as: "map (\<lambda>n. snd (loadNetworkAdapter ext n)) ns = map Inr as"
    and c: "cfg' = ?cfg\<lparr>NetworkAdapters := take (Suc i) (NetworkAdapters ?cfg) @ as
                                  @ drop (Suc i + length ns) (NetworkAdapters ?cfg)\<rparr>"
    using Cons.IH by blast
  from Cons.prems(2) have "i < length (NetworkAdapters cfg)" by simp
  with c have "cfg' = cfg\<lparr>NetworkAdapters := take i (NetworkAdapters cfg) @ (a # as)
                                 @ drop (i + length (n # ns)) (NetworkAdapters cfg)\<rparr>"
    by (simp add: filled_prefix)
  with a as show ?case by (intro exI [of _ "a # as"]) simp
qed

lemma loadNetworkConfig_ok:
  assumes "loadNetworkConfig ext cfg n = (l, cfg', None)"
  shows "map (\<lambda>n. snd (loadNetworkAdapter ext n)) (Nodes n) = map Inr (NetworkAdapters cfg')
           \<and> cfg' = cfg\<lparr>NetworkAdapters := NetworkAdapters cfg'\<rparr>"
proof -
  let ?cfg = "cfg\<lparr>NetworkAdapters := replicate (length (Nodes n)) NetworkConfig_zero\<rparr>"
  from assms have "loadNetworkConfig_loop ext 0 (Nodes n) ?cfg = (l, cfg', None)"
    by (simp add: loadNetworkConfig_def)
  from loadNetworkConfig_loop_ok [OF this] show ?thesis by auto
qed

lemma loadMemoryConfig_ok:
  assumes "loadMemoryConfig ext cfg n = (l, cfg', None)"
  shows "cfg' = cfg\<lparr>Memory := Memory cfg'\<rparr>"
  using assms by (auto simp: loadMemoryConfig_def split: prod.splits sum.splits)

lemma loadIPAddressConfig_ok:
  assumes "loadIPAddressConfig cfg n = (l, cfg', None)"
  shows "cfg' = cfg\<lparr>IPAddress := IPAddress cfg'\<rparr>"
  using assms by (auto simp: loadIPAddressConfig_def split: if_splits)


lemma loadHardwareComponent_ok:
  assumes "loadHardwareComponent ext nodeId cfg c = (l, cfg', None)"
  shows "(if GetLeafKeyPath ext (Key c) = DisksKey
          then map (GetDiskInfo ext) (Nodes c) = map Inr (Disks cfg')
          else Disks cfg' = Disks cfg)"
    and "(if GetLeafKeyPath ext (Key c) = ProcessorsKey
          then map (\<lambda>n. snd (loadProcessor ext n)) (Nodes c) = map Inr (Processors cfg')
          else Processors cfg' = Processors cfg)"
    and "(if GetLeafKeyPath ext (Key c) = NetworkKey
          then map (\<lambda>n. snd (loadNetworkAdapter ext n)) (Nodes c) = map Inr (NetworkAdapters cfg')
          else NetworkAdapters cfg' = NetworkAdapters cfg)"
proof -
  let ?k = "GetLeafKeyPath ext (Key c)"
  consider (disks) "?k = DisksKey" | (cpu) "?k = ProcessorsKey" | (mem) "?k = MemoryKey"
    | (net) "?k = NetworkKey" | (ip) "?k = IpAddressKey"
    | (other) "?k \<notin> {DisksKey, ProcessorsKey, MemoryKey, NetworkKey, IpAddressKey}"
    by auto
  then have "(if ?k = DisksKey
          then map (GetDiskInfo ext) (Nodes c) = map Inr (Disks cfg')
          else Disks cfg' = Disks cfg)
       \<and> (if ?k = ProcessorsKey
          then map (\<lambda>n. snd (loadProcessor ext n)) (Nodes c) = map Inr (Processors cfg')
          else Processors cfg' = Processors cfg)
       \<and> (if ?k = NetworkKey
          then map (\<lambda>n. snd (loadNetworkAdapter ext n)) (Nodes c) = map Inr (NetworkAdapters cfg')
          else NetworkAdapters cfg' = NetworkAdapters cfg)"
  proof cases
    case disks
    with assms obtain l' where "loadDisksConfig ext cfg c = (l', cfg', None)"
      by (auto simp: loadHardwareComponent_def split: prod.splits option.splits)
    from loadDisksConfig_ok [OF this] disks show ?thesis
      by (simp add: key_defs) (metis NodeConfig.select_convs(3,5) NodeConfig.surjective NodeConfig.update_convs(2))
  next
    case cpu
    with assms obtain l' where "loadProcessorsConfig ext cfg c = (l', cfg', None)"
      by (auto simp: loadHardwareComponent_def key_defs split: prod.splits option.splits)
    from loadProcessorsConfig_ok [OF this] cpu show ?thesis
      by (simp add: key_defs) (metis NodeConfig.select_convs(2,5) NodeConfig.surjective NodeConfig.update_convs(3))
  next
    case mem
    with assms obtain l' where "loadMemoryConfig ext cfg c = (l', cfg', None)"
      by (auto simp: loadHardwareComponent_def key_defs split: prod.splits option.splits)
    from loadMemoryConfig_ok [OF this] mem show ?thesis
      by (simp add: key_defs) (metis NodeConfig.select_convs(2,3,5) NodeConfig.surjective NodeConfig.update_convs(4))
  next
    case net
    with assms obtain l' where "loadNetworkConfig ext cfg c = (l', cfg', None)"
      by (auto simp: loadHardwareComponent_def key_defs split: prod.splits option.splits)
    from loadNetworkConfig_ok [OF this] net show ?thesis
      by (simp add: key_defs) (metis NodeConfig.select_convs(2,3) NodeConfig.surjective NodeConfig.update_convs(5))
  next
    case ip
    with assms obtain l' where "loadIPAddressConfig cfg c = (l', cfg', None)"
      by (auto simp: loadHardwareComponent_def key_defs split: prod.splits option.splits)
    from loadIPAddressConfig_ok [OF this] ip show ?thesis
      by (simp add: key_defs) (metis NodeConfig.select_convs(2,3,5) NodeConfig.surjective NodeConfig.update_convs(1))
  next
    case other
    with assms have "cfg' = cfg"
      by (auto simp: loadHardwareComponent_def Let_def)
    with other show ?thesis by auto
  qed
  then show "(if ?k = DisksKey
          then map (GetDiskInfo ext) (Nodes c) = map Inr (Disks cfg')
          else Disks cfg' = Disks cfg)"
    and "(if ?k = ProcessorsKey
          then map (\<lambda>n. snd (loadProcessor ext n)) (Nodes c) = map Inr (Processors cfg')
          else Processors cfg' = Processors cfg)"
    and "(if ?k = NetworkKey
          then map (\<lambda>n. snd (loadNetworkAdapter ext n)) (Nodes c) = map Inr (NetworkAdapters cfg')
          else NetworkAdapters cfg' = NetworkAdapters cfg)"
    by blast+
qed

lemma find_in_append:
  "find P (xs @ ys) = (case find P xs of None \<Rightarrow> find P ys | Some x \<Rightarrow> Some x)"
  by (induction xs) simp_all

lemma loadHardwareConfig_loop_last:
  assumes step: "\<And>cfg c l cfg'. loadHardwareComponent ext nodeId cfg c = (l, cfg', None) \<Longrightarrow>
                   (if P c then Q c (F cfg') else F cfg' = F cfg)"
    and "loadHardwareConfig_loop ext nodeId cs cfg0 = (l, cfg, None)"
  shows "case find P (rev cs) of None \<Rightarrow> F cfg = F cfg0 | Some c \<Rightarrow> Q c (F cfg)"
  using assms(2)
proof (induction cs arbitrary: cfg0 l)
  case Nil
  then show ?case by simp
next
  case (Cons c cs)
  from Cons.prems obtain l1 c1 l2 where
    c: "loadHardwareComponent ext nodeId cfg0 c = (l1, c1, None)"
    and r: "loadHardwareConfig_loop ext nodeId cs c1 = (l2, cfg, None)"
    by (auto split: prod.splits option.splits)
  from Cons.IH [OF r]
  have ih: "case find P (rev cs) of None \<Rightarrow> F cfg = F c1 | Some x \<Rightarrow> Q x (F cfg)" .
  show ?case
  proof (cases "find P (rev cs)")
    case (Some x)
    with ih show ?thesis by (simp add: find_in_append)
  next
    case None
    with ih have eq: "F cfg = F c1" by simp
    from step [OF c] eq None show ?thesis
      by (simp add: find_in_append split: if_splits)
  qed
qed

text \<open>
  C8: after a successful decode of a node's subtree into a fresh \<open>NodeConfig\<close>, each of
  \<open>Disks\<close>, \<open>Processors\<close> and \<open>NetworkAdapters\<close> is as long as the category's subtree
  has children, and is empty when the root has no child of that category; position
  \<open>i\<close> holds what the \<open>i\<close>-th child, in the order the store returned the children,
  decodes to. Where several children of the root carry the category's name, the last
  one counts.
\<close>

theorem sequences_follow_children:
  assumes "loadHardwareConfig ext nodeId NodeConfig_zero (Some \<lparr>Node = Some root\<rparr>) = (l, cfg, None)"
  shows "(case find (\<lambda>c. GetLeafKeyPath ext (Key c) = DisksKey) (rev (Nodes root)) of
            None \<Rightarrow> Disks cfg = []
          | Some c \<Rightarrow> length (Disks cfg) = length (Nodes c)
              \<and> (\<forall>i<length (Nodes c). GetDiskInfo ext (Nodes c ! i) = Inr (Disks cfg ! i)))
       \<and> (case find (\<lambda>c. GetLeafKeyPath ext (Key c) = ProcessorsKey) (rev (Nodes root)) of
            None \<Rightarrow> Processors cfg = []
          | Some c \<Rightarrow> length (Processors cfg) = length (Nodes c)
              \<and> (\<forall>i<length (Nodes c). snd (loadProcessor ext (Nodes c ! i)) = Inr (Processors cfg ! i)))
       \<and> (case find (\<lambda>c. GetLeafKeyPath ext (Key c) = NetworkKey) (rev (Nodes root)) of
            None \<Rightarrow> NetworkAdapters cfg = []
          | Some c \<Rightarrow> length (NetworkAdapters cfg) = length (Nodes c)
              \<and> (\<forall>i<length (Nodes c).
                    snd (loadNetworkAdapter ext (Nodes c ! i)) = Inr (NetworkAdapters cfg ! i)))"
proof -
  have pointwise: "length ys = length xs \<and> (\<forall>i<length xs. f (xs ! i) = Inr (ys ! i))"
    if "map f xs = map Inr ys" for f :: "Node \<Rightarrow> error + 'x" and xs and ys :: "'x list"
  proof -
    from that have len: "length xs = length ys" by (rule map_eq_imp_length_eq)
    moreover have "f (xs ! i) = Inr (ys ! i)" if "i < length xs" for i
      using \<open>map f xs = map Inr ys\<close> that len by (metis nth_map)
    ultimately show ?thesis by simp
  qed
  from assms obtain cfg0 where zero: "cfg0 = NodeConfig_zero"
    and loop: "loadHardwareConfig_loop ext nodeId (Nodes root) cfg0 = (l, cfg, None)"
    by (simp add: loadHardwareConfig_def)
  have "case find (\<lambda>c. GetLeafKeyPath ext (Key c) = DisksKey) (rev (Nodes root)) of
          None \<Rightarrow> Disks cfg = Disks cfg0
        | Some c \<Rightarrow> map (GetDiskInfo ext) (Nodes c) = map Inr (Disks cfg)"
    by (rule loadHardwareConfig_loop_last [OF _ loop]) (rule loadHardwareComponent_ok)
  then have disks: "case find (\<lambda>c. GetLeafKeyPath ext (Key c) = DisksKey) (rev (Nodes root)) of
            None \<Rightarrow> Disks cfg = []
          | Some c \<Rightarrow> length (Disks cfg) = length (Nodes c)
              \<and> (\<forall>i<length (Nodes c). GetDiskInfo ext (Nodes c ! i) = Inr (Disks cfg ! i))"
    by (auto simp: zero NodeConfig_zero_def dest: pointwise split: option.splits)
  have "case find (\<lambda>c. GetLeafKeyPath ext (Key c) = ProcessorsKey) (rev (Nodes root)) of
          None \<Rightarrow> Processors cfg = Processors cfg0
        | Some c \<Rightarrow> map (\<lambda>n. snd (loadProcessor ext n)) (Nodes c) = map Inr (Processors cfg)"
    by (rule loadHardwareConfig_loop_last [OF _ loop]) (rule loadHardwareComponent_ok)
  then have procs: "case find (\<lambda>c. GetLeafKeyPath ext (Key c) = ProcessorsKey) (rev (Nodes root)) of
            None \<Rightarrow> Processors cfg = []
          | Some c \<Rightarrow> length (Processors cfg) = length (Nodes c)
              \<and> (\<forall>i<length (Nodes c). snd (loadProcessor ext (Nodes c ! i)) = Inr (Processors cfg ! i))"
    by (auto simp: zero NodeConfig_zero_def dest: pointwise split: option.splits)
  have "case find (\<lambda>c. GetLeafKeyPath ext (Key c) = NetworkKey) (rev (Nodes root)) of
          None \<Rightarrow> NetworkAdapters cfg = NetworkAdapters cfg0
        | Some c \<Rightarrow> map (\<lambda>n. snd (loadNetworkAdapter ext n)) (Nodes c) = map Inr (NetworkAdapters cfg)"
    by (rule loadHardwareConfig_loop_last [OF _ loop]) (rule loadHardwareComponent_ok)
  then have nets: "case find (\<lambda>c. GetLeafKeyPath ext (Key c) = NetworkKey) (rev (Nodes root)) of
            None \<Rightarrow> NetworkAdapters cfg = []
          | Some c \<Rightarrow> length (NetworkAdapters cfg) = length (Nodes c)
              \<and> (\<forall>i<length (Nodes c).
                    snd (loadNetworkAdapter ext (Nodes c ! i)) = Inr (NetworkAdapters cfg ! i))"
    by (auto simp: zero NodeConfig_zero_def dest: pointwise split: option.splits)
  from disks procs nets show ?thesis by blast
qed


theorem sequences_follow_children_witness:
  "loadHardwareConfig (example_ext []) ''a'' NodeConfig_zero
       (Some \<lparr>Node = Some example_tree\<rparr>)
     = ([],
        \<lparr>IPAddress = ''10.0.0.1'', Disks = [3, 2],
         Processors = [\<lparr>ID = 0, PhysicalID = 0, Siblings = 0, CoreID = 3, NumCores = 0,
                        ProcSpeed = 2400, Bits = 0\<rparr>],
         Memory = \<lparr>TotalSize = 1024\<rparr>,
         NetworkAdapters = [\<lparr>Name = ''eth0'', IPv4Address = ''10.0.0.7'', IPv6Address = [],
                             Speed = 0\<rparr>]\<rparr>,
        None)
   \<and> length [3, 2 :: nat]
       = length (Nodes example_disks)
   \<and> GetDiskInfo (example_ext [])
        (Nodes example_disks ! 1)
       = Inr ([3, 2] ! 1)
   \<and> snd (loadProcessor (example_ext []) (Nodes example_cpu ! 0))
       = Inr (\<lparr>ID = 0, PhysicalID = 0, Siblings = 0, CoreID = 3, NumCores = 0,
                ProcSpeed = 2400 :: nat, Bits = 0\<rparr>)
   \<and> snd (loadNetworkAdapter (example_ext []) (Nodes example_net ! 0))
       = Inr \<lparr>Name = ''eth0'', IPv4Address = ''10.0.0.7'', IPv6Address = [], Speed = 0\<rparr>"
proof -
  let ?ext = "example_ext [] :: (string list, nat, nat) externals"
  let ?disks = example_disks
  let ?root = example_tree
  let ?cfg = "\<lparr>IPAddress = ''10.0.0.1'', Disks = [3, 2],
         Processors = [\<lparr>ID = 0, PhysicalID = 0, Siblings = 0, CoreID = 3, NumCores = 0,
                        ProcSpeed = 2400, Bits = 0\<rparr>],
         Memory = \<lparr>TotalSize = 1024\<rparr>,
         NetworkAdapters = [\<lparr>Name = ''eth0'', IPv4Address = ''10.0.0.7'', IPv6Address = [],
                             Speed = 0\<rparr>]\<rparr> :: (nat, nat) NodeConfig"
  have p: "ParseUint ''2400'' 64 = Inr 2400" "ParseUint ''3'' 32 = Inr 3"
    "ParseUint ''0'' 32 = Inr 0" "ParseUint ''1024'' 64 = Inr 1024"
    by code_simp+
  have h: "loadHardwareConfig ?ext ''a'' NodeConfig_zero (Some \<lparr>Node = Some ?root\<rparr>)
             = ([], ?cfg, None)"
    by (simp add: example_defs decoder_defs key_defs Split.simps p)
  have f1: "find (\<lambda>c. GetLeafKeyPath ?ext (Key c) = DisksKey) (rev (Nodes ?root)) = Some ?disks"
    by (simp add: example_defs key_defs Split.simps)
  have f2: "find (\<lambda>c. GetLeafKeyPath ?ext (Key c) = ProcessorsKey) (rev (Nodes ?root))
              = Some example_cpu"
    by (simp add: example_defs key_defs Split.simps)
  have f3: "find (\<lambda>c. GetLeafKeyPath ?ext (Key c) = NetworkKey) (rev (Nodes ?root))
              = Some example_net"
    by (simp add: example_defs key_defs Split.simps)
  have n: "length (Nodes ?disks) = 2" "length (Nodes example_cpu) = 1"
    "length (Nodes example_net) = 1"
    by (simp_all add: example_defs)
  from sequences_follow_children [OF h]
  have "length (Disks ?cfg) = length (Nodes ?disks)
          \<and> GetDiskInfo ?ext (Nodes ?disks ! 1) = Inr (Disks ?cfg ! 1)
          \<and> snd (loadProcessor ?ext (Nodes example_cpu ! 0)) = Inr (Processors ?cfg ! 0)
          \<and> snd (loadNetworkAdapter ?ext (Nodes example_net ! 0)) = Inr (NetworkAdapters ?cfg ! 0)"
    unfolding f1 f2 f3 option.case n by simp
  with h show ?thesis by simp
qed


end
